theory Spec2Isabelle
  imports Complex_Main "HOL-Library.Word"
begin

unbundle bit_operations_syntax

section \<open>JavaScript values\<close>

text \<open>
  The exceptions the modelled code can raise: \<open>RangeError\<close> (a typed-array view over a
  buffer whose byte length is no multiple of the element size), \<open>NotSupportedError\<close>
  (\<open>createBuffer\<close> with an argument that is zero or outside its nominal range),
  \<open>IndexSizeError\<close> (\<open>getChannelData\<close> with an index that is no channel of the buffer),
  \<open>InvalidCharacterError\<close> (\<open>atob\<close> on a string that is not base64) and \<open>TypeError\<close>
  (a method call on \<open>null\<close>, a property read on \<open>undefined\<close>).
\<close>

datatype error =
  RangeError | NotSupportedError | IndexSizeError | InvalidCharacterError | TypeError

text \<open>
  A JavaScript number as the audio code meets it: a finite value or NaN. Every finite
  \<open>Float32Array\<close> element is a real; scaling by \<open>32768\<close> (a power of two) and dividing a
  16-bit integer by \<open>32768\<close> are exact in IEEE arithmetic, so the real operations below are
  the operations of the code on these values. The infinities are not modelled.
\<close>

datatype number = Num real | NaN

type_synonym byte = "8 word"
type_synonym int16 = "16 word"

definition trunc :: "real \<Rightarrow> int" where
  "trunc x = (if 0 \<le> x then \<lfloor>x\<rfloor> else \<lceil>x\<rceil>)"

text \<open>
  Storing a number into an \<open>Int16Array\<close> element applies ECMAScript's \<open>ToInt16\<close>: NaN
  becomes 0, a finite number is truncated towards zero and reduced modulo \<open>2^16\<close> into
  \<open>[-32768, 32767]\<close>.
\<close>

fun ToInt16 :: "number \<Rightarrow> int16" where
  "ToInt16 NaN = 0"
| "ToInt16 (Num x) = word_of_int (trunc x)"

fun timesNum :: "number \<Rightarrow> real \<Rightarrow> number" where
  "timesNum NaN k = NaN"
| "timesNum (Num x) k = Num (x * k)"

section \<open>Base64 (\<open>btoa\<close>, \<open>atob\<close>)\<close>

text \<open>
  A binary string, a string whose code units all lie below 256, is modelled as the list
  of its code units: \<open>String.fromCharCode(b)\<close> is the code unit \<open>b\<close> and \<open>charCodeAt\<close>
  reads it back. \<open>btoa\<close> is the base64 encoding with padding. \<open>atob\<close> is the forgiving
  base64 decoding of the HTML standard: ASCII whitespace is removed, one or two padding
  characters are removed when the length is a multiple of four, a remaining length of
  \<open>1\<close> modulo \<open>4\<close> or a character outside the alphabet is an error, and the bits left
  over by a last group of two or three characters are discarded.
\<close>

type_synonym binaryString = "byte list"

definition b64chars :: string where
  "b64chars = ''ABCDEFGHIJKLMNOPQRSTUVWXYZabcdefghijklmnopqrstuvwxyz0123456789+/''"

definition b64char :: "nat \<Rightarrow> char" where
  "b64char n = b64chars ! (n mod 64)"

definition b64index :: "char \<Rightarrow> nat option" where
  "b64index c =
     (let k = (of_char c :: nat)
      in if 65 \<le> k \<and> k \<le> 90 then Some (k - 65)
         else if 97 \<le> k \<and> k \<le> 122 then Some (k - 71)
         else if 48 \<le> k \<and> k \<le> 57 then Some (k + 4)
         else if k = 43 then Some 62
         else if k = 47 then Some 63
         else None)"

fun btoa :: "binaryString \<Rightarrow> string" where
  "btoa [] = []"
| "btoa [a] =
     (let n = unat a * 65536
      in [b64char (n div 262144), b64char (n div 4096), CHR ''='', CHR ''=''])"
| "btoa [a, b] =
     (let n = unat a * 65536 + unat b * 256
      in [b64char (n div 262144), b64char (n div 4096), b64char (n div 64), CHR ''=''])"
| "btoa (a # b # c # r) =
     (let n = unat a * 65536 + unat b * 256 + unat c
      in [b64char (n div 262144), b64char (n div 4096), b64char (n div 64), b64char n])
     @ btoa r"

definition isAsciiWhitespace :: "char \<Rightarrow> bool" where
  "isAsciiWhitespace c =
     (let k = (of_char c :: nat) in k = 9 \<or> k = 10 \<or> k = 12 \<or> k = 13 \<or> k = 32)"

definition stripPadding :: "string \<Rightarrow> string" where
  "stripPadding s =
     (if length s mod 4 = 0 then
        (case rev s of
           p # q # r \<Rightarrow>
             if p = CHR ''='' \<and> q = CHR ''='' then rev r
             else if p = CHR ''='' then rev (q # r)
             else s
         | _ \<Rightarrow> s)
      else s)"

fun atobGroups :: "nat list \<Rightarrow> binaryString" where
  "atobGroups (p # q # r # s # rest) =
     (let n = p * 262144 + q * 4096 + r * 64 + s
      in [of_nat (n div 65536), of_nat (n div 256), of_nat n]) @ atobGroups rest"
| "atobGroups [p, q, r] =
     (let n = (p * 4096 + q * 64 + r) div 4 in [of_nat (n div 256), of_nat n])"
| "atobGroups [p, q] = [of_nat ((p * 64 + q) div 16)]"
| "atobGroups _ = []"

fun b64indices :: "string \<Rightarrow> nat list option" where
  "b64indices [] = Some []"
| "b64indices (c # cs) =
     (case b64index c of
        None \<Rightarrow> None
      | Some i \<Rightarrow> (case b64indices cs of None \<Rightarrow> None | Some r \<Rightarrow> Some (i # r)))"

definition atob :: "string \<Rightarrow> error + binaryString" where
  "atob s =
     (let d = stripPadding (filter (\<lambda>c. \<not> isAsciiWhitespace c) s)
      in if length d mod 4 = 1 then Inl InvalidCharacterError
         else (case b64indices d of
                 None \<Rightarrow> Inl InvalidCharacterError
               | Some ns \<Rightarrow> Inr (atobGroups ns)))"

section \<open>Audio encoding and decoding utilities\<close>

text \<open>
  \<open>encode\<close> builds the binary string of the bytes and applies \<open>btoa\<close>; \<open>decode\<close>
  applies \<open>atob\<close>, which may throw, and copies the code units into a \<open>Uint8Array\<close>.
\<close>

definition encode :: "byte list \<Rightarrow> string" where
  "encode bytes = btoa bytes"

definition decode :: "string \<Rightarrow> error + byte list" where
  "decode base64 =
     (case atob base64 of
        Inl e \<Rightarrow> Inl e
      | Inr binaryString \<Rightarrow> Inr binaryString)"

text \<open>
  Typed-array views. \<open>new Uint8Array(int16.buffer)\<close> reads each 16-bit element as two
  bytes, low byte first (the byte order of every platform the application runs on).
  \<open>new Int16Array(data.buffer)\<close> throws a \<open>RangeError\<close> when the byte length of the
  buffer is odd, and otherwise reads the bytes two by two.
\<close>

definition int16Bytes :: "int16 \<Rightarrow> byte list" where
  "int16Bytes w = [ucast w, ucast (drop_bit 8 w)]"

definition Uint8Array_of_int16 :: "int16 list \<Rightarrow> byte list" where
  "Uint8Array_of_int16 ws = concat (map int16Bytes ws)"

fun int16Pairs :: "byte list \<Rightarrow> int16 list" where
  "int16Pairs (lo # hi # r) = (ucast lo OR push_bit 8 (ucast hi)) # int16Pairs r"
| "int16Pairs _ = []"

definition Int16Array_of_bytes :: "byte list \<Rightarrow> error + int16 list" where
  "Int16Array_of_bytes bytes =
     (if odd (length bytes) then Inl RangeError else Inr (int16Pairs bytes))"

text \<open>
  An \<open>AudioContext\<close>, as far as \<open>createBuffer\<close> depends on it: the greatest number of
  channels and the least and the greatest sample rate (in Hz) that the implementation
  accepts for a buffer. These differ between implementations; the Web Audio API obliges
  each of them to accept up to 32 channels and the sample rates from 8000 to 96000, which
  is what \<open>conforming\<close> says of a context.
\<close>

record AudioContext =
  maxChannels :: nat
  minRate :: nat
  maxRate :: nat

definition conforming :: "AudioContext \<Rightarrow> bool" where
  "conforming ctx = (32 \<le> maxChannels ctx \<and> minRate ctx \<le> 8000 \<and> 96000 \<le> maxRate ctx)"

text \<open>
  An \<open>AudioBuffer\<close>: its sample rate in Hz, its length in sample frames and one
  \<open>Float32Array\<close> of that length per channel. The first two parameters of
  \<open>createBuffer\<close> are of the type \<open>unsigned long\<close>: an argument is truncated to an integer
  and reduced modulo \<open>2 ^ 32\<close>. \<open>createBuffer\<close> throws a \<open>NotSupportedError\<close> when the
  number of channels, the length or the sample rate is zero, when there are more channels
  than the context accepts and when the sample rate is outside the range it accepts.
  \<open>getChannelData\<close> throws an \<open>IndexSizeError\<close> when its argument is not the index of a
  channel of the buffer. A failure to allocate the memory of a buffer is not part of the
  model.
\<close>

record AudioBuffer =
  rate :: nat
  frames :: nat
  channelData :: "number list list"

definition duration :: "AudioBuffer \<Rightarrow> real" where
  "duration b = real (frames b) / real (rate b)"

definition ToUint32 :: "real \<Rightarrow> nat" where
  "ToUint32 x = nat (trunc x mod 2 ^ 32)"

definition createBuffer :: "AudioContext \<Rightarrow> nat \<Rightarrow> real \<Rightarrow> nat \<Rightarrow> error + AudioBuffer" where
  "createBuffer ctx numberOfChannels len sampleRate =
     (let c = numberOfChannels mod 2 ^ 32;
          n = ToUint32 len
      in if c = 0 \<or> maxChannels ctx < c \<or> n = 0 \<or>
            sampleRate = 0 \<or> sampleRate < minRate ctx \<or> maxRate ctx < sampleRate
         then Inl NotSupportedError
         else Inr \<lparr>rate = sampleRate, frames = n,
                    channelData = replicate c (replicate n (Num 0))\<rparr>)"

definition getChannelData :: "AudioBuffer \<Rightarrow> nat \<Rightarrow> error + number list" where
  "getChannelData buffer channel =
     (if channel < length (channelData buffer) then Inr (channelData buffer ! channel)
      else Inl IndexSizeError)"

text \<open>
  Reading a typed array out of range gives \<open>undefined\<close>, and \<open>undefined / 32768.0\<close> is
  NaN; storing into a typed array out of range does nothing.
\<close>

definition sampleAt :: "int16 list \<Rightarrow> nat \<Rightarrow> number" where
  "sampleAt dataInt16 k =
     (if k < length dataInt16 then Num (real_of_int (sint (dataInt16 ! k)) / 32768) else NaN)"

definition store :: "number list \<Rightarrow> nat \<Rightarrow> number \<Rightarrow> number list" where
  "store a i v = (if i < length a then a[i := v] else a)"

text \<open>
  \<open>decodeAudioData\<close>. \<open>frameCount\<close> is the quotient of two numbers, not an integer
  division: the inner loop runs while \<open>i < frameCount\<close>, that is for
  \<open>i < \<lceil>frameCount\<rceil>\<close>. With \<open>numChannels = 0\<close> the quotient is infinite or NaN in
  JavaScript and \<open>0\<close> here; \<open>createBuffer\<close> throws in both. The sample rate and the
  number of channels are natural numbers here, as they are at the call of the program
  (24000 and 1). An exception of \<open>getChannelData\<close> ends the outer loop.
\<close>

definition fillChannel :: "int16 list \<Rightarrow> nat \<Rightarrow> real \<Rightarrow> nat \<Rightarrow> number list \<Rightarrow> number list" where
  "fillChannel dataInt16 numChannels frameCount channel cd =
     fold (\<lambda>i a. store a i (sampleAt dataInt16 (i * numChannels + channel)))
       [0..<nat \<lceil>frameCount\<rceil>] cd"

definition decodeAudioData ::
  "byte list \<Rightarrow> AudioContext \<Rightarrow> nat \<Rightarrow> nat \<Rightarrow> error + AudioBuffer" where
  "decodeAudioData bytes ctx sampleRate numChannels =
     (case Int16Array_of_bytes bytes of
        Inl e \<Rightarrow> Inl e
      | Inr dataInt16 \<Rightarrow>
          (let frameCount = real (length dataInt16) / real numChannels
           in case createBuffer ctx numChannels frameCount sampleRate of
                Inl e \<Rightarrow> Inl e
              | Inr buffer \<Rightarrow>
                  fold (\<lambda>channel r.
                          case r of
                            Inl e \<Rightarrow> Inl e
                          | Inr b \<Rightarrow>
                              (case getChannelData b channel of
                                 Inl e \<Rightarrow> Inl e
                               | Inr cd \<Rightarrow>
                                   Inr (b\<lparr>channelData := (channelData b)
                                          [channel := fillChannel dataInt16 numChannels
                                                        frameCount channel cd]\<rparr>)))
                    [0..<numChannels] (Inr buffer)))"

text \<open>\<open>createBlobFromAudio\<close>: every sample times 32768, stored into an \<open>Int16Array\<close>.\<close>

record Blob =
  blobData :: string
  mimeType :: string

definition createBlobFromAudio :: "number list \<Rightarrow> Blob" where
  "createBlobFromAudio samples =
     (let int16 = map (\<lambda>x. ToInt16 (timesNum x 32768)) samples
      in \<lparr>blobData = encode (Uint8Array_of_int16 int16),
          mimeType = ''audio/pcm;rate=16000''\<rparr>)"

text \<open>
  Encoding a block of samples and decoding the result as one channel at \<open>sampleRate\<close>.
\<close>

definition roundTrip :: "AudioContext \<Rightarrow> nat \<Rightarrow> number list \<Rightarrow> error + AudioBuffer" where
  "roundTrip ctx sampleRate samples =
     (case decode (blobData (createBlobFromAudio samples)) of
        Inl e \<Rightarrow> Inl e
      | Inr bytes \<Rightarrow> decodeAudioData bytes ctx sampleRate 1)"

section \<open>What the model takes as given\<close>

text \<open>
  \<open>Personality\<close> and \<open>AppMode\<close> are string enumerations declared in \<open>types.ts\<close>, which
  is not among the sources. The code uses them through \<open>Object.values\<close> and through the
  members \<open>Personality.Nihara\<close>, \<open>AppMode.Chat\<close> and \<open>AppMode.AIDiary\<close>, so these are
  parameters of the model. An enumeration lists each of its members among its values.

  The last parameter concerns React. A state setter called with a function (an updater)
  does not run the function at a fixed moment: React runs it inside the call when it has
  no update of the component on record, and otherwise when it next renders the
  component, after the handler that made the call has finished. \<open>updaterAtCall\<close> says
  which of the two holds when a handler passes an updater. It matters for an updater
  that reads a reference the handler changes afterwards; a setter called with a value,
  or with an updater that only uses the previous state, gives the same state either
  way.

  \<open>audioContext\<close> holds the limits of the audio contexts of the platform, which the
  output context created by \<open>handleToggleLiveMode\<close> has.
\<close>

record setting =
  PersonalityValues :: "string list"
  AppModeValues :: "string list"
  Nihara :: string
  Chat :: string
  AIDiary :: string
  updaterAtCall :: bool
  audioContext :: AudioContext

definition wellFormed :: "setting \<Rightarrow> bool" where
  "wellFormed E =
     (Nihara E \<in> set (PersonalityValues E) \<and> Chat E \<in> set (AppModeValues E) \<and>
      AIDiary E \<in> set (AppModeValues E) \<and> Chat E \<noteq> AIDiary E)"

text \<open>
  The values offered to the remote model by \<open>changeModeDeclaration\<close>: every mode but the
  diary.
\<close>

definition changeModeDeclarationEnum :: "setting \<Rightarrow> string list" where
  "changeModeDeclarationEnum E = filter (\<lambda>m. m \<noteq> AIDiary E) (AppModeValues E)"

section \<open>Messages of the live session\<close>

datatype json = JString string | JNumber real | JBool bool | JNull

text \<open>
  A function call of the remote model: its id, its name and its \<open>args\<close> object, which
  may be absent.
\<close>

record FunctionCall =
  fcId :: string
  fcName :: string
  fcArgs :: "(string \<rightharpoonup> json) option"

record FunctionResponse =
  frId :: string
  frName :: string
  frResult :: string

text \<open>
  A \<open>LiveServerMessage\<close> as the handler reads it: the interruption flag, the batch of
  function calls, the two transcription fragments, the turn-complete flag and the
  base64 audio payload of the first part of the model turn; each may be absent.
\<close>

record message =
  interrupted :: bool
  toolCall :: "FunctionCall list option"
  outputTranscription :: "string option"
  inputTranscription :: "string option"
  turnComplete :: bool
  audioData :: "string option"

text \<open>\<open>Object.values(X).includes(v)\<close>: \<open>v\<close> is a string and one of the values.\<close>

fun valuesInclude :: "string list \<Rightarrow> json option \<Rightarrow> bool" where
  "valuesInclude vs (Some (JString v)) = (v \<in> set vs)"
| "valuesInclude vs _ = False"

fun asString :: "json option \<Rightarrow> string" where
  "asString (Some (JString v)) = v"
| "asString _ = []"

section \<open>Application state\<close>

datatype liveStatus = Listening | Speaking | Thinking | Idle

record transcript =
  user :: string
  assistant :: string

text \<open>
  What the handlers do to the world outside the component state, in the order they do
  it: the calls of \<open>stop\<close> and \<open>start\<close> on buffer sources (named by the order of their
  creation), the tool responses sent on the session, the timer that clears the action
  status, the values given to \<open>setLiveStatus\<close> and \<open>setLiveTranscript\<close>, and an
  exception that ends a handler.
\<close>

datatype effect =
    SourceStop nat
  | SourceStart nat real AudioBuffer
  | SendToolResponse FunctionResponse
  | SetTimeout nat
  | SetLiveStatus liveStatus
  | SetLiveTranscript transcript
  | SessionClose
  | Uncaught error

record state =
  currentPersonality :: string
  currentMode :: string
  isLive :: bool
  liveStatus :: liveStatus
  liveActionStatus :: "string option"
  liveSessionPromiseRef :: "nat option"
  liveTranscript :: transcript
  liveTranscriptRef :: transcript
  outputAudioContextRef :: bool
  audioSourcesRef :: "nat list"
  nextStartTimeRef :: real
  sourcesCreated :: nat
  sessionsCreated :: nat
  bondLevel :: int
  mood :: string
  memories :: "string list"
  effects :: "effect list"

text \<open>The state of the component when it is mounted (the \<open>useState\<close> and \<open>useRef\<close> values).\<close>

definition initialState :: "setting \<Rightarrow> state" where
  "initialState E =
     \<lparr>currentPersonality = Nihara E, currentMode = Chat E, isLive = False,
      liveStatus = Idle, liveActionStatus = None, liveSessionPromiseRef = None,
      liveTranscript = \<lparr>user = [], assistant = []\<rparr>,
      liveTranscriptRef = \<lparr>user = [], assistant = []\<rparr>,
      outputAudioContextRef = False, audioSourcesRef = [], nextStartTimeRef = 0,
      sourcesCreated = 0, sessionsCreated = 0,
      bondLevel = 0, mood = ''Neutral'', memories = [], effects = []\<rparr>"

definition emit :: "effect \<Rightarrow> state \<Rightarrow> state" where
  "emit e s = s\<lparr>effects := effects s @ [e]\<rparr>"

definition setLiveStatus :: "liveStatus \<Rightarrow> state \<Rightarrow> state" where
  "setLiveStatus st s = emit (SetLiveStatus st) (s\<lparr>liveStatus := st\<rparr>)"

definition setLiveTranscript :: "transcript \<Rightarrow> state \<Rightarrow> state" where
  "setLiveTranscript t s = emit (SetLiveTranscript t) (s\<lparr>liveTranscript := t\<rparr>)"

section \<open>\<open>handleToggleLiveMode\<close>\<close>

text \<open>
  Leaving live mode closes the session and clears the reference to it; entering it sets
  the status to listening, creates the output audio context if there is none and
  connects a session. Neither branch touches the playback references.
\<close>

definition handleToggleLiveMode :: "state \<Rightarrow> state" where
  "handleToggleLiveMode s =
     (if isLive s then
        (let s1 = (case liveSessionPromiseRef s of
                     None \<Rightarrow> s
                   | Some session \<Rightarrow> emit SessionClose (s\<lparr>liveSessionPromiseRef := None\<rparr>))
         in setLiveStatus Idle (s1\<lparr>isLive := False\<rparr>))
      else
        (let s1 = setLiveStatus Listening (s\<lparr>isLive := True\<rparr>)
         in s1\<lparr>outputAudioContextRef := True,
               liveSessionPromiseRef := Some (sessionsCreated s1),
               sessionsCreated := Suc (sessionsCreated s1)\<rparr>))"

section \<open>\<open>onmessage\<close>\<close>

text \<open>Interruption: every active source is stopped, the set is cleared, the offset reset.\<close>

definition flush :: "state \<Rightarrow> state" where
  "flush s =
     (let s1 = setLiveStatus Listening s;
          s2 = fold (\<lambda>source. emit (SourceStop source)) (audioSourcesRef s1) s1
      in s2\<lparr>audioSourcesRef := [], nextStartTimeRef := 0\<rparr>)"

text \<open>
  One function call of a tool-call batch. For the two tools the argument is read from
  \<open>fc.args\<close>, a property read on \<open>undefined\<close> when the call has no \<open>args\<close>; it ends the
  handler before anything is changed or sent for the call. The state change is made only
  for a recognised argument; the response is sent on the session read before the loop,
  and the send is a method call on \<open>null\<close> when the reference to the session has been
  cleared.
\<close>

definition handleFunctionCall ::
  "setting \<Rightarrow> nat option \<Rightarrow> FunctionCall \<Rightarrow> state \<Rightarrow> error option \<times> state" where
  "handleFunctionCall E session fc s =
     (case (if fcName fc = ''changePersonality'' then
              (case fcArgs fc of
                 None \<Rightarrow> Inl TypeError
               | Some args \<Rightarrow>
                   (let newP = args ''personality''
                    in if valuesInclude (PersonalityValues E) newP
                       then Inr (s\<lparr>currentPersonality := asString newP\<rparr>,
                                 ''Personality set to '' @ asString newP @ ''.'')
                       else Inr (s, [])))
            else if fcName fc = ''changeMode'' then
              (case fcArgs fc of
                 None \<Rightarrow> Inl TypeError
               | Some args \<Rightarrow>
                   (let newM = args ''mode''
                    in if valuesInclude (AppModeValues E) newM
                       then Inr (s\<lparr>currentMode := asString newM\<rparr>,
                                 ''Mode changed to '' @ asString newM @ ''.'')
                       else Inr (s, [])))
            else Inr (s, [])) of
        Inl e \<Rightarrow> (Some e, s)
      | Inr (s1, actionMessage) \<Rightarrow>
          (let s2 = (if actionMessage \<noteq> []
                     then emit (SetTimeout 3000) (s1\<lparr>liveActionStatus := Some actionMessage\<rparr>)
                     else s1)
           in case session of
                None \<Rightarrow> (Some TypeError, s2)
              | Some _ \<Rightarrow>
                  (None, emit (SendToolResponse
                                 \<lparr>frId = fcId fc, frName = fcName fc, frResult = ''ok''\<rparr>) s2)))"

fun functionCalls ::
  "setting \<Rightarrow> nat option \<Rightarrow> FunctionCall list \<Rightarrow> state \<Rightarrow> error option \<times> state" where
  "functionCalls E session [] s = (None, s)"
| "functionCalls E session (fc # fcs) s =
     (case handleFunctionCall E session fc s of
        (Some e, s') \<Rightarrow> (Some e, s')
      | (None, s') \<Rightarrow> functionCalls E session fcs s')"

definition onToolCall :: "setting \<Rightarrow> message \<Rightarrow> state \<Rightarrow> error option \<times> state" where
  "onToolCall E m s =
     (case toolCall m of
        None \<Rightarrow> (None, s)
      | Some fcs \<Rightarrow> functionCalls E (liveSessionPromiseRef s) fcs s)"

text \<open>
  Transcription fragments are appended to the accumulators; an absent or empty fragment
  is skipped. Without the turn-complete flag the accumulators are published as they
  are. With it, \<open>setLiveTranscript\<close> is called with an updater that reads the
  accumulators, then the accumulators are reset, and the status becomes listening if no
  source is active. The updater reads the accumulators when React runs it: as they were
  before the reset if that is inside the call, and as the reset left them if it is at
  the next render (taken here to come before the next handler runs).
\<close>

fun fragment :: "string option \<Rightarrow> string" where
  "fragment None = []"
| "fragment (Some t) = (if t \<noteq> [] then t else [])"

definition onTranscription :: "message \<Rightarrow> state \<Rightarrow> state" where
  "onTranscription m s =
     s\<lparr>liveTranscriptRef :=
         \<lparr>user = user (liveTranscriptRef s) @ fragment (inputTranscription m),
          assistant = assistant (liveTranscriptRef s) @ fragment (outputTranscription m)\<rparr>\<rparr>"

definition onTurn :: "setting \<Rightarrow> message \<Rightarrow> state \<Rightarrow> state" where
  "onTurn E m s =
     (if turnComplete m then
        (let s1 = s\<lparr>liveTranscriptRef := \<lparr>user = [], assistant = []\<rparr>\<rparr>;
             current = (if updaterAtCall E then liveTranscriptRef s else liveTranscriptRef s1);
             s2 = setLiveTranscript
                    ((liveTranscript s1)\<lparr>user := user current, assistant := assistant current\<rparr>) s1
         in if audioSourcesRef s2 = [] then setLiveStatus Listening s2 else s2)
      else setLiveTranscript (liveTranscriptRef s) s)"

text \<open>
  An audio payload: the status becomes speaking, the offset is raised to the clock of
  the output context (\<open>now\<close>, read when the handler runs), the payload is decoded at
  24000 Hz and one channel, and a new source is started at the offset, which then
  advances by the duration of the buffer. An exception of the decoding ends the handler
  after the first two steps.
\<close>

definition onAudio :: "setting \<Rightarrow> real \<Rightarrow> message \<Rightarrow> state \<Rightarrow> error option \<times> state" where
  "onAudio E now m s =
     (case audioData m of
        None \<Rightarrow> (None, s)
      | Some a \<Rightarrow>
          if a \<noteq> [] \<and> outputAudioContextRef s then
            (let s1 = setLiveStatus Speaking s;
                 s2 = s1\<lparr>nextStartTimeRef := max (nextStartTimeRef s1) now\<rparr>
             in case decode a of
                  Inl e \<Rightarrow> (Some e, s2)
                | Inr bytes \<Rightarrow>
                    (case decodeAudioData bytes (audioContext E) 24000 1 of
                       Inl e \<Rightarrow> (Some e, s2)
                     | Inr audioBuffer \<Rightarrow>
                         (let source = sourcesCreated s2;
                              s3 = emit (SourceStart source (nextStartTimeRef s2) audioBuffer)
                                     (s2\<lparr>sourcesCreated := Suc source\<rparr>)
                          in (None,
                              s3\<lparr>nextStartTimeRef := nextStartTimeRef s3 + duration audioBuffer,
                                 audioSourcesRef := audioSourcesRef s3 @ [source]\<rparr>))))
          else (None, s))"

definition onmessage :: "setting \<Rightarrow> real \<Rightarrow> message \<Rightarrow> state \<Rightarrow> error option \<times> state" where
  "onmessage E now m s =
     (let s1 = (if interrupted m then flush s else s)
      in case onToolCall E m s1 of
           (Some e, s2) \<Rightarrow> (Some e, s2)
         | (None, s2) \<Rightarrow> onAudio E now m (onTurn E m (onTranscription m s2)))"

text \<open>The \<open>ended\<close> listener of a source.\<close>

definition onended :: "nat \<Rightarrow> state \<Rightarrow> state" where
  "onended source s =
     (let s1 = s\<lparr>audioSourcesRef := removeAll source (audioSourcesRef s)\<rparr>
      in if audioSourcesRef s1 = [] then setLiveStatus Listening s1 else s1)"

section \<open>The event loop\<close>

text \<open>
  Handlers run one after the other, each to completion. An exception ends the handler
  that raised it; the updates it made before stay.
\<close>

datatype event = ToggleLive | Message real message | Ended nat

fun dispatch :: "setting \<Rightarrow> event \<Rightarrow> state \<Rightarrow> state" where
  "dispatch E ToggleLive s = handleToggleLiveMode s"
| "dispatch E (Message now m) s =
     (case onmessage E now m s of
        (None, s') \<Rightarrow> s'
      | (Some e, s') \<Rightarrow> emit (Uncaught e) s')"
| "dispatch E (Ended source) s = onended source s"

definition run :: "setting \<Rightarrow> event list \<Rightarrow> state \<Rightarrow> state" where
  "run E evs s = fold (dispatch E) evs s"

section \<open>Bond level, mood and memories\<close>

text \<open>The effect hook that derives the mood; it reruns whenever the bond level changes.\<close>

definition deriveMood :: "int \<Rightarrow> string" where
  "deriveMood b =
     (if b > 5 then ''Joyful''
      else if b > 0 then ''Content''
      else if b < -5 then ''Concerned''
      else if b < 0 then ''Pensive''
      else ''Neutral'')"

definition setBondLevel :: "(int \<Rightarrow> int) \<Rightarrow> state \<Rightarrow> state" where
  "setBondLevel f s = s\<lparr>bondLevel := f (bondLevel s), mood := deriveMood (f (bondLevel s))\<rparr>"

text \<open>
  \<open>processAiInteraction\<close>, given what \<open>analyzeSentiment\<close> and \<open>extractMemory\<close> answered
  (\<open>None\<close> for \<open>null\<close>). \<open>slice(-20)\<close> keeps the last twenty elements.
\<close>

definition slice_last :: "nat \<Rightarrow> 'a list \<Rightarrow> 'a list" where
  "slice_last n xs = drop (length xs - n) xs"

definition processAiInteraction :: "string \<Rightarrow> string option \<Rightarrow> state \<Rightarrow> state" where
  "processAiInteraction sentiment memory s =
     (let s1 = (if sentiment = ''positive'' then setBondLevel (\<lambda>b. b + 1) s else s);
          s2 = (if sentiment = ''negative'' then setBondLevel (\<lambda>b. max 0 (b - 1)) s1 else s1)
      in case memory of
           None \<Rightarrow> s2
         | Some mem \<Rightarrow>
             if mem \<noteq> [] then s2\<lparr>memories := slice_last 20 (memories s2 @ [mem])\<rparr> else s2)"

text \<open>A sequence of interactions, each with the sentiment and the memory answered for it.\<close>

definition interactions :: "(string \<times> string option) list \<Rightarrow> state \<Rightarrow> state" where
  "interactions xs s = fold (\<lambda>x. processAiInteraction (fst x) (snd x)) xs s"

section \<open>Observations\<close>

text \<open>Projections of the effects that the properties below are stated with.\<close>

fun stopped :: "effect list \<Rightarrow> nat list" where
  "stopped [] = []"
| "stopped (SourceStop h # es) = h # stopped es"
| "stopped (_ # es) = stopped es"

fun startTimes :: "effect list \<Rightarrow> real list" where
  "startTimes [] = []"
| "startTimes (SourceStart h t b # es) = t # startTimes es"
| "startTimes (_ # es) = startTimes es"

fun toolResponses :: "effect list \<Rightarrow> FunctionResponse list" where
  "toolResponses [] = []"
| "toolResponses (SendToolResponse r # es) = r # toolResponses es"
| "toolResponses (_ # es) = toolResponses es"

fun uncaught :: "effect list \<Rightarrow> error list" where
  "uncaught [] = []"
| "uncaught (Uncaught e # es) = e # uncaught es"
| "uncaught (_ # es) = uncaught es"


text \<open>
  A function call has its arguments when it carries an \<open>args\<close> object or names neither of
  the two tools (the handler then reads no argument); a message has them when every
  function call it carries has.
\<close>

definition hasArgs :: "FunctionCall \<Rightarrow> bool" where
  "hasArgs fc =
     (fcArgs fc \<noteq> None \<or> \<not> (fcName fc = ''changePersonality'' \<or> fcName fc = ''changeMode''))"

definition callsHaveArgs :: "message \<Rightarrow> bool" where
  "callsHaveArgs m = (case toolCall m of None \<Rightarrow> True | Some fcs \<Rightarrow> list_all hasArgs fcs)"


fun published :: "effect list \<Rightarrow> transcript list" where
  "published [] = []"
| "published (SetLiveTranscript t # es) = t # published es"
| "published (_ # es) = published es"

text \<open>The text all the fragments of a list of messages add up to, for each role.\<close>

definition userText :: "message list \<Rightarrow> string" where
  "userText ms = concat (map (\<lambda>m. case inputTranscription m of None \<Rightarrow> [] | Some t \<Rightarrow> t) ms)"

definition assistantText :: "message list \<Rightarrow> string" where
  "assistantText ms =
     concat (map (\<lambda>m. case outputTranscription m of None \<Rightarrow> [] | Some t \<Rightarrow> t) ms)"

fun statusSets :: "effect list \<Rightarrow> liveStatus list" where
  "statusSets [] = []"
| "statusSets (SetLiveStatus st # es) = st # statusSets es"
| "statusSets (_ # es) = statusSets es"

text \<open>
  \<open>transitions a b st sts\<close>: how often the live status changes from \<open>a\<close> to \<open>b\<close> when
  it is \<open>st\<close> first and is then set to the values \<open>sts\<close> in turn.
\<close>

fun changes :: "liveStatus \<Rightarrow> liveStatus \<Rightarrow> liveStatus list \<Rightarrow> nat" where
  "changes a b (x # y # r) = (if x = a \<and> y = b then 1 else 0) + changes a b (y # r)"
| "changes a b _ = 0"

definition transitions :: "liveStatus \<Rightarrow> liveStatus \<Rightarrow> liveStatus \<Rightarrow> liveStatus list \<Rightarrow> nat" where
  "transitions a b st sts = changes a b (st # sts)"

text \<open>The duration of the chunk a message carries, if its payload decodes.\<close>

definition chunkDuration :: "setting \<Rightarrow> message \<Rightarrow> real option" where
  "chunkDuration E m =
     (case audioData m of
        None \<Rightarrow> None
      | Some a \<Rightarrow>
          (case decode a of
             Inl e \<Rightarrow> None
           | Inr bytes \<Rightarrow>
               (case decodeAudioData bytes (audioContext E) 24000 1 of
                  Inl e \<Rightarrow> None
                | Inr b \<Rightarrow> Some (duration b))))"

section \<open>What the tool-call phase leaves alone\<close>

text \<open>
  The tool-call phase changes the personality, the mode and the action status, sends
  responses and sets timers; \<open>untouched s s'\<close> lists what it does not change.
\<close>

definition untouched :: "state \<Rightarrow> state \<Rightarrow> bool" where
  "untouched s s' =
     (isLive s' = isLive s \<and> liveStatus s' = liveStatus s \<and>
      liveSessionPromiseRef s' = liveSessionPromiseRef s \<and>
      liveTranscript s' = liveTranscript s \<and> liveTranscriptRef s' = liveTranscriptRef s \<and>
      outputAudioContextRef s' = outputAudioContextRef s \<and>
      audioSourcesRef s' = audioSourcesRef s \<and> nextStartTimeRef s' = nextStartTimeRef s \<and>
      sourcesCreated s' = sourcesCreated s \<and> sessionsCreated s' = sessionsCreated s \<and>
      bondLevel s' = bondLevel s \<and> mood s' = mood s \<and> memories s' = memories s \<and>
      stopped (effects s') = stopped (effects s) \<and>
      startTimes (effects s') = startTimes (effects s) \<and>
      statusSets (effects s') = statusSets (effects s) \<and>
      uncaught (effects s') = uncaught (effects s) \<and>
      published (effects s') = published (effects s))"

section \<open>An instance of the parameters\<close>

text \<open>
  The members are those the sources name; their string values stand for the ones of
  \<open>types.ts\<close>. Updaters run at the next render, as they do once the component has
  rendered an update. The audio context accepts what every implementation must accept
  and no more. The instance serves to evaluate the model at concrete inputs.
\<close>

definition sampleContext :: AudioContext where
  "sampleContext = \<lparr>maxChannels = 32, minRate = 8000, maxRate = 96000\<rparr>"

definition sampleSetting :: setting where
  "sampleSetting =
     \<lparr>PersonalityValues = [''Nihara''],
      AppModeValues = [''Chat'', ''Code Writer'', ''Deep Research'', ''Study Buddy'',
                       ''Astro Guide'', ''Image Gen'', ''AI Diary''],
      Nihara = ''Nihara'', Chat = ''Chat'', AIDiary = ''AI Diary'', updaterAtCall = False,
      audioContext = sampleContext\<rparr>"

text \<open>
  A message with nothing in it, and the state of a component that was mounted and then
  switched to live mode.
\<close>

definition emptyMessage :: message where
  "emptyMessage =
     \<lparr>interrupted = False, toolCall = None, outputTranscription = None,
      inputTranscription = None, turnComplete = False, audioData = None\<rparr>"

definition liveState :: state where
  "liveState = handleToggleLiveMode (initialState sampleSetting)"

definition changeModeCall :: "string \<Rightarrow> string \<Rightarrow> FunctionCall" where
  "changeModeCall callId v =
     \<lparr>fcId = callId, fcName = ''changeMode'', fcArgs = Some [''mode'' \<mapsto> JString v]\<rparr>"


text \<open>
  \<open>silence n\<close> is the base64 text of \<open>3 * n\<close> zero bytes, and \<open>chunk n\<close> a message
  whose only content is that payload.
\<close>

definition silence :: "nat \<Rightarrow> string" where
  "silence n = concat (replicate n ''AAAA'')"

definition chunk :: "nat \<Rightarrow> message" where
  "chunk n = emptyMessage\<lparr>audioData := Some (silence n)\<rparr>"

text \<open>A live state with two chunks scheduled at the clock reading 0.\<close>

definition busyState :: state where
  "busyState = run sampleSetting [Message 0 (chunk 2), Message 0 (chunk 2)] liveState"

section \<open>Bond level and memories: invariants\<close>

lemma bondLevel_setBondLevel: "bondLevel (setBondLevel f s) = f (bondLevel s)"
  by (simp add: setBondLevel_def)

lemma mood_setBondLevel: "mood (setBondLevel f s) = deriveMood (f (bondLevel s))"
  by (simp add: setBondLevel_def)

lemma memories_setBondLevel: "memories (setBondLevel f s) = memories s"
  by (simp add: setBondLevel_def)

lemma bondLevel_processAiInteraction:
  "bondLevel (processAiInteraction sentiment memory s) =
     (if sentiment = ''positive'' then bondLevel s + 1
      else if sentiment = ''negative'' then max 0 (bondLevel s - 1)
      else bondLevel s)"
  by (simp add: processAiInteraction_def Let_def bondLevel_setBondLevel split: option.split)

lemma mood_processAiInteraction:
  "mood s = deriveMood (bondLevel s) \<Longrightarrow>
   mood (processAiInteraction sentiment memory s) =
     deriveMood (bondLevel (processAiInteraction sentiment memory s))"
  by (simp add: processAiInteraction_def Let_def bondLevel_setBondLevel mood_setBondLevel
      split: option.split)

lemma memories_processAiInteraction:
  "memories (processAiInteraction sentiment memory s) =
     (case memory of
        None \<Rightarrow> memories s
      | Some mem \<Rightarrow> if mem \<noteq> [] then slice_last 20 (memories s @ [mem]) else memories s)"
  by (simp add: processAiInteraction_def Let_def memories_setBondLevel split: option.split)

lemma deriveMood_nonneg:
  "0 \<le> b \<Longrightarrow> deriveMood b \<noteq> ''Pensive'' \<and> deriveMood b \<noteq> ''Concerned''"
  by (simp add: deriveMood_def)

lemma interactions_Cons:
  "interactions (x # xs) s = interactions xs (processAiInteraction (fst x) (snd x) s)"
  by (simp add: interactions_def)

lemma interactions_bond:
  "0 \<le> bondLevel s \<Longrightarrow> mood s = deriveMood (bondLevel s) \<Longrightarrow>
   0 \<le> bondLevel (interactions xs s) \<and>
   mood (interactions xs s) = deriveMood (bondLevel (interactions xs s))"
proof (induction xs arbitrary: s)
  case Nil
  then show ?case by (simp add: interactions_def)
next
  case (Cons x xs)
  have "0 \<le> bondLevel (processAiInteraction (fst x) (snd x) s)"
    using Cons.prems(1) by (simp add: bondLevel_processAiInteraction)
  moreover have "mood (processAiInteraction (fst x) (snd x) s) =
      deriveMood (bondLevel (processAiInteraction (fst x) (snd x) s))"
    using Cons.prems(2) by (rule mood_processAiInteraction)
  ultimately show ?case using Cons.IH by (simp add: interactions_Cons)
qed

lemma length_slice_last: "length (slice_last n xs) = min n (length xs)"
  by (simp add: slice_last_def)

lemma interactions_memories:
  "length (memories s) \<le> 20 \<Longrightarrow> length (memories (interactions xs s)) \<le> 20"
proof (induction xs arbitrary: s)
  case Nil
  then show ?case by (simp add: interactions_def)
next
  case (Cons x xs)
  have "length (memories (processAiInteraction (fst x) (snd x) s)) \<le> 20"
    using Cons.prems
    by (simp add: memories_processAiInteraction length_slice_last split: option.split)
  then show ?case using Cons.IH by (simp add: interactions_Cons)
qed

text \<open>
  C9. From a bond level that is not negative, and a mood derived from it, every sequence
  of interactions leaves the bond level not negative: a negative sentiment takes one
  off and stops at 0. So the mood derived after the sequence is neither Pensive nor
  Concerned.
\<close>

theorem bond_level_never_negative:
  assumes "0 \<le> bondLevel s" and "mood s = deriveMood (bondLevel s)"
  shows "0 \<le> bondLevel (interactions xs s) \<and>
         mood (interactions xs s) \<noteq> ''Pensive'' \<and>
         mood (interactions xs s) \<noteq> ''Concerned'' \<and>
         deriveMood (bondLevel (interactions xs s)) \<noteq> ''Pensive'' \<and>
         deriveMood (bondLevel (interactions xs s)) \<noteq> ''Concerned'' \<and>
         bondLevel (processAiInteraction ''negative'' memory s) = max 0 (bondLevel s - 1)"
  using interactions_bond [OF assms, of xs]
    deriveMood_nonneg [of "bondLevel (interactions xs s)"]
  by (simp add: bondLevel_processAiInteraction)

theorem bond_level_never_negative_witness:
  "0 \<le> bondLevel (initialState sampleSetting) \<and>
   mood (initialState sampleSetting) = deriveMood (bondLevel (initialState sampleSetting)) \<and>
   0 \<le> bondLevel (interactions
          [(''negative'', None), (''positive'', Some ''likes tea''), (''negative'', None),
           (''negative'', None)] (initialState sampleSetting)) \<and>
   mood (interactions
          [(''negative'', None), (''positive'', Some ''likes tea''), (''negative'', None),
           (''negative'', None)] (initialState sampleSetting)) \<noteq> ''Pensive'' \<and>
   bondLevel (processAiInteraction ''negative'' None (initialState sampleSetting)) = 0"
proof -
  have h1: "0 \<le> bondLevel (initialState sampleSetting)"
    by (simp add: initialState_def)
  have h2: "mood (initialState sampleSetting) = deriveMood (bondLevel (initialState sampleSetting))"
    by (simp add: initialState_def deriveMood_def)
  have h3: "bondLevel (initialState sampleSetting) = 0"
    by (simp add: initialState_def)
  show ?thesis
    using h1 h2 h3
      bond_level_never_negative [OF h1 h2,
        of "[(''negative'', None), (''positive'', Some ''likes tea''), (''negative'', None),
             (''negative'', None)]" None]
    by simp
qed

text \<open>
  C10. An interaction that yields a memory appends it and keeps the last twenty
  elements of the list, so the list has at most twenty elements afterwards; a list of at
  most twenty elements has at most twenty after any sequence of interactions.
\<close>

theorem memories_at_most_twenty:
  assumes "mem \<noteq> []"
  shows "memories (processAiInteraction sentiment (Some mem) s) =
           drop (length (memories s) - 19) (memories s @ [mem]) \<and>
         length (memories (processAiInteraction sentiment (Some mem) s)) =
           min 20 (Suc (length (memories s))) \<and>
         (length (memories s) \<le> 20 \<longrightarrow> length (memories (interactions xs s)) \<le> 20)"
  using assms interactions_memories [of s xs]
  by (simp add: memories_processAiInteraction slice_last_def)

theorem memories_at_most_twenty_witness:
  "''likes tea'' \<noteq> [] \<and>
   memories (processAiInteraction ''positive'' (Some ''likes tea'') (initialState sampleSetting)) =
     [''likes tea''] \<and>
   length (memories (initialState sampleSetting)) \<le> 20 \<and>
   length (memories (interactions [(''positive'', Some ''likes tea''), (''neutral'', Some ''has a cat'')]
      (initialState sampleSetting))) \<le> 20"
proof -
  have h1: "''likes tea'' \<noteq> []" by simp
  have h2: "memories (initialState sampleSetting) = []"
    by (simp add: initialState_def)
  show ?thesis
    using h1 h2
      memories_at_most_twenty [OF h1, of "''positive''" "initialState sampleSetting"
        "[(''positive'', Some ''likes tea''), (''neutral'', Some ''has a cat'')]"]
    by simp
qed

section \<open>The audio codec: lemmas\<close>

lemma length_store [simp]: "length (store a i v) = length a"
  by (simp add: store_def)

lemma nth_store: "j < length a \<Longrightarrow> store a i v ! j = (if j = i then v else a ! j)"
  by (simp add: store_def)

lemma fold_store_length [simp]:
  "length (fold (\<lambda>i a. store a i (f i)) [0..<C] cd) = length cd"
  by (induction C) simp_all

lemma fold_store_nth:
  "j < length cd \<Longrightarrow>
   fold (\<lambda>i a. store a i (f i)) [0..<C] cd ! j = (if j < C then f j else cd ! j)"
  by (induction C) (auto simp add: nth_store less_Suc_eq)

lemma fillChannel_replicate:
  assumes "n \<le> nat \<lceil>frameCount\<rceil>"
  shows "fillChannel d nc frameCount c (replicate n z) = map (\<lambda>i. sampleAt d (i * nc + c)) [0..<n]"
  using assms
  by (auto simp add: fillChannel_def list_eq_iff_nth_eq fold_store_nth)

lemma fold_channels_length [simp]:
  "length (channelData (fold (\<lambda>c b. b\<lparr>channelData := (channelData b)[c := g c (channelData b ! c)]\<rparr>)
      [0..<K] b0)) = length (channelData b0)"
  by (induction K) simp_all

lemma fold_channels_frame [simp]:
  "rate (fold (\<lambda>c b. b\<lparr>channelData := (channelData b)[c := g c (channelData b ! c)]\<rparr>)
      [0..<K] b0) = rate b0"
  "frames (fold (\<lambda>c b. b\<lparr>channelData := (channelData b)[c := g c (channelData b ! c)]\<rparr>)
      [0..<K] b0) = frames b0"
  by (induction K) simp_all

lemma fold_channels_nth:
  "j < length (channelData b0) \<Longrightarrow>
   channelData (fold (\<lambda>c b. b\<lparr>channelData := (channelData b)[c := g c (channelData b ! c)]\<rparr>)
      [0..<K] b0) ! j = (if j < K then g j (channelData b0 ! j) else channelData b0 ! j)"
  by (induction K) (auto simp add: less_Suc_eq nth_list_update)

lemma length_int16Pairs [simp]: "length (int16Pairs bytes) = length bytes div 2"
  by (induction bytes rule: int16Pairs.induct) simp_all

lemma floor_frameCount: "nat \<lfloor>real l / real nc\<rfloor> = l div nc"
  by (simp add: floor_divide_of_nat_eq)

lemma ceiling_frameCount: "l div nc \<le> nat \<lceil>real l / real nc\<rceil>"
proof -
  have "\<lfloor>real l / real nc\<rfloor> \<le> \<lceil>real l / real nc\<rceil>"
    by (rule floor_le_ceiling)
  then have "nat \<lfloor>real l / real nc\<rfloor> \<le> nat \<lceil>real l / real nc\<rceil>"
    by (rule nat_mono)
  then show ?thesis by (simp add: floor_frameCount)
qed

lemma ToUint32_frameCount: "ToUint32 (real l / real nc) = l div nc mod 2 ^ 32"
proof -
  have "trunc (real l / real nc) = int (l div nc)"
    by (simp add: trunc_def floor_divide_of_nat_eq)
  then have "ToUint32 (real l / real nc) = nat (int (l div nc) mod 2 ^ 32)"
    by (simp add: ToUint32_def)
  also have "\<dots> = l div nc mod 2 ^ 32"
    by (simp add: nat_mod_distrib)
  finally show ?thesis .
qed

lemma fold_getChannelData:
  "fold (\<lambda>channel r.
           case r of
             Inl e \<Rightarrow> Inl e
           | Inr b \<Rightarrow>
               (case getChannelData b channel of
                  Inl e \<Rightarrow> Inl e
                | Inr cd \<Rightarrow> Inr (b\<lparr>channelData := (channelData b)[channel := g channel cd]\<rparr>)))
     [0..<K] (Inr b0) =
   (if K \<le> length (channelData b0)
    then Inr (fold (\<lambda>c b. b\<lparr>channelData := (channelData b)[c := g c (channelData b ! c)]\<rparr>)
                [0..<K] b0)
    else Inl IndexSizeError)"
proof (induction K)
  case 0
  show ?case by simp
next
  case (Suc K)
  define P where "P = fold (\<lambda>c b. b\<lparr>channelData := (channelData b)[c := g c (channelData b ! c)]\<rparr>)
                [0..<K] b0"
  define F where "F = (\<lambda>channel r.
           case r of
             Inl e \<Rightarrow> Inl e
           | Inr b \<Rightarrow>
               (case getChannelData b channel of
                  Inl e \<Rightarrow> Inl (e :: error)
                | Inr cd \<Rightarrow> Inr (b\<lparr>channelData := (channelData b)[channel := g channel cd]\<rparr>)))"
  have len: "length (channelData P) = length (channelData b0)"
    unfolding P_def by (rule fold_channels_length)
  have ih: "fold F [0..<K] (Inr b0) =
      (if K \<le> length (channelData b0) then Inr P else Inl IndexSizeError)"
    using Suc.IH unfolding F_def P_def .
  have st: "fold F [0..<Suc K] (Inr b0) = F K (fold F [0..<K] (Inr b0))"
    by simp
  have "fold F [0..<Suc K] (Inr b0) =
      (if Suc K \<le> length (channelData b0)
       then Inr (P\<lparr>channelData := (channelData P)[K := g K (channelData P ! K)]\<rparr>)
       else Inl IndexSizeError)"
    unfolding st ih using len by (simp add: F_def getChannelData_def Suc_le_eq)
  then show ?case
    unfolding F_def P_def by simp
qed

lemma decodeAudioData_eq:
  "decodeAudioData bytes ctx sampleRate numChannels =
     (if odd (length bytes) then Inl RangeError
      else if numChannels mod 2 ^ 32 = 0 \<or> maxChannels ctx < numChannels mod 2 ^ 32 \<or>
              length bytes div 2 div numChannels mod 2 ^ 32 = 0 \<or>
              sampleRate = 0 \<or> sampleRate < minRate ctx \<or> maxRate ctx < sampleRate
        then Inl NotSupportedError
      else if numChannels mod 2 ^ 32 < numChannels then Inl IndexSizeError
      else Inr \<lparr>rate = sampleRate, frames = length bytes div 2 div numChannels mod 2 ^ 32,
                 channelData =
                   map (\<lambda>channel.
                          map (\<lambda>i. sampleAt (int16Pairs bytes) (i * numChannels + channel))
                            [0..<length bytes div 2 div numChannels mod 2 ^ 32])
                     [0..<numChannels]\<rparr>)"
proof (cases "odd (length bytes)")
  case True
  then show ?thesis by (simp add: decodeAudioData_def Int16Array_of_bytes_def)
next
  case even: False
  define d where "d = int16Pairs bytes"
  define c where "c = numChannels mod 2 ^ 32"
  define n where "n = length bytes div 2 div numChannels mod 2 ^ 32"
  define fc where "fc = real (length (int16Pairs bytes)) / real numChannels"
  have fc: "fc = real (length bytes div 2) / real numChannels"
    by (simp add: fc_def)
  have n: "ToUint32 fc = n"
    unfolding fc n_def by (rule ToUint32_frameCount)
  have dec: "decodeAudioData bytes ctx sampleRate numChannels =
      (case createBuffer ctx numChannels fc sampleRate of
         Inl e \<Rightarrow> Inl e
       | Inr buffer \<Rightarrow>
           fold (\<lambda>channel r.
                   case r of
                     Inl e \<Rightarrow> Inl e
                   | Inr b \<Rightarrow>
                       (case getChannelData b channel of
                          Inl e \<Rightarrow> Inl e
                        | Inr cd \<Rightarrow>
                            Inr (b\<lparr>channelData := (channelData b)
                                   [channel := fillChannel d numChannels fc channel cd]\<rparr>)))
             [0..<numChannels] (Inr buffer))"
    using even unfolding d_def fc_def decodeAudioData_def Int16Array_of_bytes_def Let_def
    by (simp del: length_int16Pairs)
  show ?thesis
  proof (cases "c = 0 \<or> maxChannels ctx < c \<or> n = 0 \<or>
      sampleRate = 0 \<or> sampleRate < minRate ctx \<or> maxRate ctx < sampleRate")
    case True
    then have "createBuffer ctx numChannels fc sampleRate = Inl NotSupportedError"
      unfolding createBuffer_def Let_def n c_def [symmetric] by (simp only: if_True)
    then have "decodeAudioData bytes ctx sampleRate numChannels = Inl NotSupportedError"
      by (simp add: dec)
    then show ?thesis
      using even True unfolding c_def n_def by (simp only: if_True if_False)
  next
    case False
    define b0 where "b0 = \<lparr>rate = sampleRate, frames = n,
                 channelData = replicate c (replicate n (Num 0))\<rparr>"
    have cb: "createBuffer ctx numChannels fc sampleRate = Inr b0"
      using False unfolding createBuffer_def Let_def n c_def [symmetric] b0_def
      by (simp only: if_False)
    have len: "length (channelData b0) = c"
      by (simp add: b0_def)
    show ?thesis
    proof (cases "c < numChannels")
      case True
      then have "decodeAudioData bytes ctx sampleRate numChannels = Inl IndexSizeError"
        by (simp add: dec cb fold_getChannelData len)
      then show ?thesis
        using even False True unfolding c_def n_def by (simp only: if_True if_False)
    next
      case same: False
      have c: "c = numChannels"
        using same by (simp add: c_def)
      define r where "r = fold (\<lambda>channel b.
                   b\<lparr>channelData := (channelData b)
                       [channel := fillChannel d numChannels fc channel (channelData b ! channel)]\<rparr>)
                 [0..<numChannels] b0"
      have dr: "decodeAudioData bytes ctx sampleRate numChannels = Inr r"
        by (simp add: dec cb fold_getChannelData len c r_def)
      have "n \<le> length bytes div 2 div numChannels"
        by (simp add: n_def)
      also have "\<dots> \<le> nat \<lceil>fc\<rceil>"
        unfolding fc by (rule ceiling_frameCount)
      finally have le: "n \<le> nat \<lceil>fc\<rceil>" .
      have ch: "channelData r =
          map (\<lambda>channel. map (\<lambda>i. sampleAt d (i * numChannels + channel)) [0..<n])
            [0..<numChannels]"
        unfolding r_def
        by (rule nth_equalityI)
          (simp_all add: fold_channels_nth [where g = "fillChannel d numChannels fc"]
            fillChannel_replicate [OF le] b0_def c)
      have "r = \<lparr>rate = sampleRate, frames = n,
                   channelData =
                     map (\<lambda>channel. map (\<lambda>i. sampleAt d (i * numChannels + channel)) [0..<n])
                       [0..<numChannels]\<rparr>"
        using ch by (simp add: AudioBuffer.equality r_def b0_def)
      then have "decodeAudioData bytes ctx sampleRate numChannels =
          Inr \<lparr>rate = sampleRate, frames = n,
                channelData =
                  map (\<lambda>channel. map (\<lambda>i. sampleAt d (i * numChannels + channel)) [0..<n])
                    [0..<numChannels]\<rparr>"
        using dr by simp
      then show ?thesis
        using even False same unfolding c_def n_def d_def by (simp only: if_True if_False)
    qed
  qed
qed

text \<open>
  The call of the program, at 24000 Hz and one channel, in a context that accepts what
  every implementation must accept, for less than \<open>2 ^ 33\<close> bytes.
\<close>

lemma decodeAudioData_mono:
  assumes "conforming ctx" and "length bytes < 2 ^ 33"
  shows "decodeAudioData bytes ctx 24000 1 =
     (if odd (length bytes) then Inl RangeError
      else if length bytes div 2 = 0 then Inl NotSupportedError
      else Inr \<lparr>rate = 24000, frames = length bytes div 2,
                 channelData = [map (sampleAt (int16Pairs bytes)) [0..<length bytes div 2]]\<rparr>)"
proof -
  have l: "length bytes div 2 < 2 ^ 32"
    using assms(2) by simp
  have u: "[0..<1] = [0]" by simp
  show ?thesis
    using assms(1) l unfolding decodeAudioData_eq conforming_def
    by (simp add: u)
qed

text \<open>
  C7, as amended. What \<open>decodeAudioData\<close> does with the length of its input, for less
  than \<open>2 ^ 33\<close> bytes: an odd number of bytes is a \<open>RangeError\<close> of the \<open>Int16Array\<close>
  view; an even number of bytes holding less than one frame is a \<open>NotSupportedError\<close> of
  \<open>createBuffer\<close>, and so is a channel count or a sample rate that is zero or that the
  context does not accept; otherwise the result is a buffer of
  \<open>(length bytes div 2) div numChannels\<close> frames, the 16-bit samples de-interleaved and
  divided by 32768, and the samples after the last whole frame are dropped.
\<close>

theorem decodeAudioData_lengths:
  assumes "length bytes < 2 ^ 33"
  shows "decodeAudioData bytes ctx sampleRate numChannels =
     (if odd (length bytes) then Inl RangeError
      else if numChannels = 0 \<or> maxChannels ctx < numChannels \<or>
              length bytes div 2 < numChannels \<or>
              sampleRate = 0 \<or> sampleRate < minRate ctx \<or> maxRate ctx < sampleRate
        then Inl NotSupportedError
      else Inr \<lparr>rate = sampleRate, frames = length bytes div 2 div numChannels,
                 channelData =
                   map (\<lambda>channel.
                          map (\<lambda>i. Num (real_of_int
                                 (sint (int16Pairs bytes ! (i * numChannels + channel))) / 32768))
                            [0..<length bytes div 2 div numChannels])
                     [0..<numChannels]\<rparr>)"
proof -
  define l where "l = length bytes div 2"
  define n where "n = l div numChannels"
  have l: "l < 2 ^ 32"
    using assms by (simp add: l_def)
  have nl: "n \<le> l"
    by (simp add: n_def)
  have nm: "n mod 2 ^ 32 = n"
    using nl l by simp
  show ?thesis
  proof (cases "odd (length bytes)")
    case True
    then show ?thesis by (simp add: decodeAudioData_eq)
  next
    case even: False
    show ?thesis
    proof (cases "l < numChannels")
      case True
      then have "n = 0"
        by (simp add: n_def)
      then have "decodeAudioData bytes ctx sampleRate numChannels = Inl NotSupportedError"
        using even unfolding decodeAudioData_eq l_def [symmetric] n_def [symmetric]
        by simp
      then show ?thesis
        using even True by (simp add: l_def)
    next
      case False
      then have cl: "numChannels \<le> l"
        by simp
      then have cm: "numChannels mod 2 ^ 32 = numChannels"
        using l by simp
      have n0: "n = 0 \<longleftrightarrow> numChannels = 0"
        using cl by (auto simp add: n_def div_eq_0_iff)
      have inr: "i * numChannels + channel < length (int16Pairs bytes)"
        if "i < n" and "channel < numChannels" for i channel
      proof -
        have "i * numChannels + channel < Suc i * numChannels"
          using that(2) by simp
        also have "\<dots> \<le> n * numChannels"
          using that(1) by (simp only: mult_le_mono1 Suc_leI)
        also have "\<dots> \<le> l"
          by (simp add: n_def)
        finally show ?thesis by (simp add: l_def)
      qed
      have m: "map (\<lambda>channel. map (\<lambda>i. sampleAt (int16Pairs bytes) (i * numChannels + channel)) [0..<n])
              [0..<numChannels] =
            map (\<lambda>channel.
                   map (\<lambda>i. Num (real_of_int
                          (sint (int16Pairs bytes ! (i * numChannels + channel))) / 32768)) [0..<n])
              [0..<numChannels]"
        using inr by (simp add: sampleAt_def)
      have "decodeAudioData bytes ctx sampleRate numChannels =
         (if numChannels = 0 \<or> maxChannels ctx < numChannels \<or>
              sampleRate = 0 \<or> sampleRate < minRate ctx \<or> maxRate ctx < sampleRate
          then Inl NotSupportedError
          else Inr \<lparr>rate = sampleRate, frames = n,
                 channelData =
                   map (\<lambda>channel.
                          map (\<lambda>i. Num (real_of_int
                                 (sint (int16Pairs bytes ! (i * numChannels + channel))) / 32768))
                            [0..<n])
                     [0..<numChannels]\<rparr>)"
        using even unfolding decodeAudioData_eq l_def [symmetric] n_def [symmetric] cm nm m
        by (auto simp add: n0)
      then show ?thesis
        using even False by (simp add: l_def n_def)
    qed
  qed
qed

theorem decodeAudioData_lengths_witness:
  "length [0, 0, 1, 0, 2, 0 :: byte] < 2 ^ 33 \<and>
   decodeAudioData [0, 0, 1, 0, 2, 0] sampleContext 24000 2 =
     Inr \<lparr>rate = 24000, frames = 1, channelData = [[Num 0], [Num (1 / 32768)]]\<rparr>"
proof -
  have u: "[0..<2] = [0, 1]" "[0..<1] = [0]"
    by (simp_all add: upt_rec)
  have h: "length [0, 0, 1, 0, 2, 0 :: byte] < 2 ^ 33"
    by simp
  show ?thesis
    using decodeAudioData_lengths [OF h, of sampleContext 24000 2]
    by (simp add: u sampleContext_def)
qed

text \<open>
  Three bytes for one channel are not a multiple of \<open>channelCount * 2\<close> bytes, and the
  call raises.
\<close>

theorem odd_length_counterexample:
  "length [0, 0, 0 :: byte] mod (1 * 2) \<noteq> 0 \<and>
   decodeAudioData [0, 0, 0] sampleContext 24000 1 = Inl RangeError"
  by (simp add: decodeAudioData_def Int16Array_of_bytes_def)

text \<open>
  C3. The sample \<open>1\<close> lies in \<open>[-1, 1]\<close>. Scaled by 32768 it is \<open>32768\<close>, which
  \<open>ToInt16\<close> wraps to \<open>-32768\<close>; decoded, the sample is \<open>-1\<close>, at distance \<open>2\<close> from
  the original.
\<close>

theorem full_scale_sample_wraps:
  "roundTrip sampleContext 24000 [Num 1] =
     Inr \<lparr>rate = 24000, frames = 1, channelData = [[Num (- 1)]]\<rparr>"
proof -
  have "decode (blobData (createBlobFromAudio [Num 1])) = Inr [0, 128]"
    by (simp add: decode_def createBlobFromAudio_def encode_def Uint8Array_of_int16_def
        int16Bytes_def trunc_def b64char_def b64chars_def atob_def stripPadding_def
        b64index_def isAsciiWhitespace_def)
  moreover have "decodeAudioData [0, 128] sampleContext 24000 1 =
      Inr \<lparr>rate = 24000, frames = 1, channelData = [[Num (- 1)]]\<rparr>"
    by (simp add: decodeAudioData_eq sampleAt_def sampleContext_def)
  ultimately show ?thesis by (simp add: roundTrip_def)
qed

section \<open>The live session: lemmas\<close>

subsection \<open>Projections distribute over append\<close>

lemma stopped_append [simp]: "stopped (xs @ ys) = stopped xs @ stopped ys"
  by (induction xs rule: stopped.induct) simp_all

lemma startTimes_append [simp]: "startTimes (xs @ ys) = startTimes xs @ startTimes ys"
  by (induction xs rule: startTimes.induct) simp_all

lemma toolResponses_append [simp]:
  "toolResponses (xs @ ys) = toolResponses xs @ toolResponses ys"
  by (induction xs rule: toolResponses.induct) simp_all

lemma uncaught_append [simp]: "uncaught (xs @ ys) = uncaught xs @ uncaught ys"
  by (induction xs rule: uncaught.induct) simp_all

lemma statusSets_append [simp]: "statusSets (xs @ ys) = statusSets xs @ statusSets ys"
  by (induction xs rule: statusSets.induct) simp_all

lemma stopped_map_SourceStop [simp]: "stopped (map SourceStop hs) = hs"
  by (induction hs) simp_all

lemma startTimes_map_SourceStop [simp]: "startTimes (map SourceStop hs) = []"
  by (induction hs) simp_all

lemma statusSets_map_SourceStop [simp]: "statusSets (map SourceStop hs) = []"
  by (induction hs) simp_all

lemma uncaught_map_SourceStop [simp]: "uncaught (map SourceStop hs) = []"
  by (induction hs) simp_all

lemma toolResponses_map_SourceStop [simp]: "toolResponses (map SourceStop hs) = []"
  by (induction hs) simp_all

lemma published_append [simp]: "published (xs @ ys) = published xs @ published ys"
  by (induction xs rule: published.induct) simp_all

lemma published_map_SourceStop [simp]: "published (map SourceStop hs) = []"
  by (induction hs) simp_all

subsection \<open>The phases of the handler\<close>

lemma fold_emit_SourceStop:
  "fold (\<lambda>source. emit (SourceStop source)) hs s = s\<lparr>effects := effects s @ map SourceStop hs\<rparr>"
  by (induction hs arbitrary: s) (simp_all add: emit_def)

lemma flush_eq:
  "flush s =
     s\<lparr>liveStatus := Listening,
       effects := effects s @ SetLiveStatus Listening # map SourceStop (audioSourcesRef s),
       audioSourcesRef := [], nextStartTimeRef := 0\<rparr>"
  by (simp add: flush_def Let_def setLiveStatus_def emit_def fold_emit_SourceStop)



lemma untouched_refl: "untouched s s"
  by (simp add: untouched_def)

lemma untouched_trans: "untouched s s' \<Longrightarrow> untouched s' s'' \<Longrightarrow> untouched s s''"
  by (simp add: untouched_def)

lemma handleFunctionCall_untouched: "untouched s (snd (handleFunctionCall E session fc s))"
  by (simp add: handleFunctionCall_def Let_def emit_def untouched_def
      split: option.split)

lemma handleFunctionCall_open:
  "hasArgs fc \<Longrightarrow>
   fst (handleFunctionCall E (Some k) fc s) = None \<and>
   toolResponses (effects (snd (handleFunctionCall E (Some k) fc s))) =
     toolResponses (effects s) @ [\<lparr>frId = fcId fc, frName = fcName fc, frResult = ''ok''\<rparr>]"
  by (auto simp add: handleFunctionCall_def hasArgs_def Let_def emit_def)

lemma handleFunctionCall_no_args:
  "\<not> hasArgs fc \<Longrightarrow> handleFunctionCall E session fc s = (Some TypeError, s)"
  by (auto simp add: handleFunctionCall_def hasArgs_def)

lemma handleFunctionCall_no_session:
  "fst (handleFunctionCall E None fc s) = Some TypeError \<and>
   toolResponses (effects (snd (handleFunctionCall E None fc s))) = toolResponses (effects s)"
  by (simp add: handleFunctionCall_def Let_def emit_def split: option.split)

lemma functionCalls_untouched: "untouched s (snd (functionCalls E session fcs s))"
proof (induction fcs arbitrary: s)
  case Nil
  show ?case by (simp add: untouched_refl)
next
  case (Cons fc fcs)
  obtain e s' where h: "handleFunctionCall E session fc s = (e, s')"
    by (cases "handleFunctionCall E session fc s")
  have u: "untouched s s'"
    using handleFunctionCall_untouched [of s E session fc] h by simp
  show ?case
  proof (cases e)
    case None
    then show ?thesis
      using h u Cons.IH [of s'] by (simp add: untouched_trans)
  next
    case (Some err)
    then show ?thesis using h u by simp
  qed
qed

lemma functionCalls_open:
  "list_all hasArgs fcs \<Longrightarrow>
   fst (functionCalls E (Some k) fcs s) = None \<and>
   toolResponses (effects (snd (functionCalls E (Some k) fcs s))) =
     toolResponses (effects s) @
     map (\<lambda>fc. \<lparr>frId = fcId fc, frName = fcName fc, frResult = ''ok''\<rparr>) fcs"
proof (induction fcs arbitrary: s)
  case Nil
  show ?case by simp
next
  case (Cons fc fcs)
  have a: "hasArgs fc" and as: "list_all hasArgs fcs"
    using Cons.prems by simp_all
  obtain e s' where h: "handleFunctionCall E (Some k) fc s = (e, s')"
    by (cases "handleFunctionCall E (Some k) fc s")
  have e: "e = None"
    and r: "toolResponses (effects s') =
       toolResponses (effects s) @ [\<lparr>frId = fcId fc, frName = fcName fc, frResult = ''ok''\<rparr>]"
    using handleFunctionCall_open [OF a, of E k s] h by simp_all
  show ?case
    using h e r Cons.IH [OF as, of s'] by simp
qed


lemma onToolCall_untouched: "untouched s (snd (onToolCall E m s))"
  by (simp add: onToolCall_def untouched_refl functionCalls_untouched split: option.split)

lemma onToolCall_open:
  "liveSessionPromiseRef s = Some k \<Longrightarrow> callsHaveArgs m \<Longrightarrow>
   onToolCall E m s = (None, snd (onToolCall E m s)) \<and>
   toolResponses (effects (snd (onToolCall E m s))) =
     toolResponses (effects s) @
     (case toolCall m of
        None \<Rightarrow> []
      | Some fcs \<Rightarrow> map (\<lambda>fc. \<lparr>frId = fcId fc, frName = fcName fc, frResult = ''ok''\<rparr>) fcs)"
  using functionCalls_open [of _ E k s]
  by (cases "toolCall m") (simp_all add: onToolCall_def callsHaveArgs_def prod_eq_iff)

lemma onToolCall_none: "toolCall m = None \<Longrightarrow> onToolCall E m s = (None, s)"
  by (simp add: onToolCall_def)

lemma onmessage_open:
  assumes "liveSessionPromiseRef s = Some k" and "callsHaveArgs m"
  shows "onmessage E now m s =
           onAudio E now m (onTurn E m (onTranscription m
             (snd (onToolCall E m (if interrupted m then flush s else s)))))"
proof (cases "interrupted m")
  case True
  have "liveSessionPromiseRef (flush s) = Some k"
    using assms(1) by (simp add: flush_eq)
  then have "onToolCall E m (flush s) = (None, snd (onToolCall E m (flush s)))"
    using onToolCall_open [of "flush s" k m E] assms(2) by simp
  then obtain t where "onToolCall E m (flush s) = (None, t)" by blast
  then show ?thesis using True by (simp add: onmessage_def)
next
  case False
  have "onToolCall E m s = (None, snd (onToolCall E m s))"
    using onToolCall_open [of s k m E] assms by simp
  then obtain t where "onToolCall E m s = (None, t)" by blast
  then show ?thesis using False by (simp add: onmessage_def)
qed

lemma onmessage_no_tools:
  assumes "toolCall m = None"
  shows "onmessage E now m s =
           onAudio E now m (onTurn E m (onTranscription m (if interrupted m then flush s else s)))"
  using assms by (simp add: onmessage_def Let_def onToolCall_none)


lemma fragment_eq: "fragment x = (case x of None \<Rightarrow> [] | Some t \<Rightarrow> t)"
  by (cases x) simp_all

lemma onTranscription_frame [simp]:
  "currentPersonality (onTranscription m s) = currentPersonality s"
  "currentMode (onTranscription m s) = currentMode s"
  "liveStatus (onTranscription m s) = liveStatus s"
  "liveSessionPromiseRef (onTranscription m s) = liveSessionPromiseRef s"
  "outputAudioContextRef (onTranscription m s) = outputAudioContextRef s"
  "liveTranscript (onTranscription m s) = liveTranscript s"
  "audioSourcesRef (onTranscription m s) = audioSourcesRef s"
  "nextStartTimeRef (onTranscription m s) = nextStartTimeRef s"
  "sourcesCreated (onTranscription m s) = sourcesCreated s"
  "effects (onTranscription m s) = effects s"
  by (simp_all add: onTranscription_def)

lemma onTranscription_ref [simp]:
  "liveTranscriptRef (onTranscription m s) =
     \<lparr>user = user (liveTranscriptRef s) @ userText [m],
      assistant = assistant (liveTranscriptRef s) @ assistantText [m]\<rparr>"
  by (simp add: onTranscription_def userText_def assistantText_def fragment_eq)

lemma onTurn_frame [simp]:
  "currentPersonality (onTurn E m s) = currentPersonality s"
  "currentMode (onTurn E m s) = currentMode s"
  "liveSessionPromiseRef (onTurn E m s) = liveSessionPromiseRef s"
  "outputAudioContextRef (onTurn E m s) = outputAudioContextRef s"
  "audioSourcesRef (onTurn E m s) = audioSourcesRef s"
  "nextStartTimeRef (onTurn E m s) = nextStartTimeRef s"
  "sourcesCreated (onTurn E m s) = sourcesCreated s"
  "toolResponses (effects (onTurn E m s)) = toolResponses (effects s)"
  "stopped (effects (onTurn E m s)) = stopped (effects s)"
  "startTimes (effects (onTurn E m s)) = startTimes (effects s)"
  "uncaught (effects (onTurn E m s)) = uncaught (effects s)"
  by (simp_all add: onTurn_def setLiveTranscript_def setLiveStatus_def emit_def Let_def)

lemma onTurn_transcript [simp]:
  "liveTranscriptRef (onTurn E m s) =
     (if turnComplete m then \<lparr>user = [], assistant = []\<rparr> else liveTranscriptRef s)"
  "liveTranscript (onTurn E m s) =
     (if turnComplete m \<and> \<not> updaterAtCall E then \<lparr>user = [], assistant = []\<rparr>
      else liveTranscriptRef s)"
  "published (effects (onTurn E m s)) =
     published (effects s) @
     [if turnComplete m \<and> \<not> updaterAtCall E then \<lparr>user = [], assistant = []\<rparr>
      else liveTranscriptRef s]"
  by (simp_all add: onTurn_def setLiveTranscript_def setLiveStatus_def emit_def Let_def)

lemma onTurn_status [simp]:
  "liveStatus (onTurn E m s) =
     (if turnComplete m \<and> audioSourcesRef s = [] then Listening else liveStatus s)"
  "statusSets (effects (onTurn E m s)) =
     statusSets (effects s) @ (if turnComplete m \<and> audioSourcesRef s = [] then [Listening] else [])"
  by (simp_all add: onTurn_def setLiveTranscript_def setLiveStatus_def emit_def Let_def)

lemma onAudio_frame [simp]:
  "currentPersonality (snd (onAudio E now m s)) = currentPersonality s"
  "currentMode (snd (onAudio E now m s)) = currentMode s"
  "liveSessionPromiseRef (snd (onAudio E now m s)) = liveSessionPromiseRef s"
  "outputAudioContextRef (snd (onAudio E now m s)) = outputAudioContextRef s"
  "liveTranscript (snd (onAudio E now m s)) = liveTranscript s"
  "liveTranscriptRef (snd (onAudio E now m s)) = liveTranscriptRef s"
  "toolResponses (effects (snd (onAudio E now m s))) = toolResponses (effects s)"
  "published (effects (snd (onAudio E now m s))) = published (effects s)"
  "stopped (effects (snd (onAudio E now m s))) = stopped (effects s)"
  "uncaught (effects (snd (onAudio E now m s))) = uncaught (effects s)"
  by (simp_all add: onAudio_def setLiveStatus_def emit_def Let_def
      split: option.split sum.split)

lemma flush_frame [simp]:
  "currentPersonality (flush s) = currentPersonality s"
  "currentMode (flush s) = currentMode s"
  "liveSessionPromiseRef (flush s) = liveSessionPromiseRef s"
  "outputAudioContextRef (flush s) = outputAudioContextRef s"
  "liveTranscript (flush s) = liveTranscript s"
  "liveTranscriptRef (flush s) = liveTranscriptRef s"
  "sourcesCreated (flush s) = sourcesCreated s"
  "toolResponses (effects (flush s)) = toolResponses (effects s)"
  "published (effects (flush s)) = published (effects s)"
  "startTimes (effects (flush s)) = startTimes (effects s)"
  "uncaught (effects (flush s)) = uncaught (effects s)"
  by (simp_all add: flush_eq)

lemma flush_effect [simp]:
  "audioSourcesRef (flush s) = []"
  "nextStartTimeRef (flush s) = 0"
  "liveStatus (flush s) = Listening"
  "stopped (effects (flush s)) = stopped (effects s) @ audioSourcesRef s"
  "statusSets (effects (flush s)) = statusSets (effects s) @ [Listening]"
  by (simp_all add: flush_eq)

lemma later_phases_tools:
  "currentPersonality (snd (onAudio E now m (onTurn E m (onTranscription m s)))) =
     currentPersonality s \<and>
   currentMode (snd (onAudio E now m (onTurn E m (onTranscription m s)))) = currentMode s \<and>
   toolResponses (effects (snd (onAudio E now m (onTurn E m (onTranscription m s))))) =
     toolResponses (effects s)"
  by simp






text \<open>
  C8. The diary mode is left out of the values \<open>changeModeDeclaration\<close> offers, but the
  handler checks the argument against all the values of \<open>AppMode\<close>: a \<open>changeMode\<close> call
  with the diary mode sets the mode to it.
\<close>

theorem reserved_mode_accepted:
  assumes "wellFormed E" and "liveSessionPromiseRef s = Some k" and "toolCall m = Some [fc]"
    and "fcName fc = ''changeMode''" and "fcArgs fc = Some args"
    and "args ''mode'' = Some (JString (AIDiary E))"
  shows "currentMode (snd (onmessage E now m s)) = AIDiary E \<and>
         AIDiary E \<notin> set (changeModeDeclarationEnum E)"
proof -
  let ?s1 = "if interrupted m then flush s else s"
  let ?s2 = "snd (onToolCall E m ?s1)"
  have c: "callsHaveArgs m"
    using assms(3,5) by (simp add: callsHaveArgs_def hasArgs_def)
  have eq: "onmessage E now m s = onAudio E now m (onTurn E m (onTranscription m ?s2))"
    using assms(2) c by (rule onmessage_open)
  have inc: "valuesInclude (AppModeValues E) (Some (JString (AIDiary E)))"
    using assms(1) by (simp add: wellFormed_def)
  have "currentMode ?s2 = AIDiary E"
    using assms(3,4,5,6) inc
    by (simp add: onToolCall_def handleFunctionCall_def Let_def emit_def split: option.split)
  then have "currentMode (snd (onmessage E now m s)) = AIDiary E"
    using eq later_phases_tools [of E now m ?s2] by simp
  then show ?thesis by (simp add: changeModeDeclarationEnum_def)
qed

lemma dispatch_Message_fields:
  "liveTranscript (dispatch E (Message now m) s) = liveTranscript (snd (onmessage E now m s))"
  "liveTranscriptRef (dispatch E (Message now m) s) =
     liveTranscriptRef (snd (onmessage E now m s))"
  "liveSessionPromiseRef (dispatch E (Message now m) s) =
     liveSessionPromiseRef (snd (onmessage E now m s))"
  "outputAudioContextRef (dispatch E (Message now m) s) =
     outputAudioContextRef (snd (onmessage E now m s))"
  "audioSourcesRef (dispatch E (Message now m) s) = audioSourcesRef (snd (onmessage E now m s))"
  "nextStartTimeRef (dispatch E (Message now m) s) =
     nextStartTimeRef (snd (onmessage E now m s))"
  "sourcesCreated (dispatch E (Message now m) s) = sourcesCreated (snd (onmessage E now m s))"
  "liveStatus (dispatch E (Message now m) s) = liveStatus (snd (onmessage E now m s))"
  "published (effects (dispatch E (Message now m) s)) =
     published (effects (snd (onmessage E now m s)))"
  "startTimes (effects (dispatch E (Message now m) s)) =
     startTimes (effects (snd (onmessage E now m s)))"
  "statusSets (effects (dispatch E (Message now m) s)) =
     statusSets (effects (snd (onmessage E now m s)))"
  "stopped (effects (dispatch E (Message now m) s)) =
     stopped (effects (snd (onmessage E now m s)))"
  by (simp_all add: emit_def split: prod.split option.split)

lemma onmessage_session:
  "liveSessionPromiseRef (snd (onmessage E now m s)) = liveSessionPromiseRef s"
proof -
  define s1 where "s1 = (if interrupted m then flush s else s)"
  obtain e t where h: "onToolCall E m s1 = (e, t)"
    by (cases "onToolCall E m s1")
  have "untouched s1 t"
    using onToolCall_untouched [of s1 E m] h by simp
  then have "liveSessionPromiseRef t = liveSessionPromiseRef s"
    by (simp add: untouched_def s1_def)
  then show ?thesis
    using h by (cases e) (simp_all add: onmessage_def Let_def s1_def [symmetric])
qed

lemma message_transcript:
  assumes "liveSessionPromiseRef s = Some k" and "callsHaveArgs m"
  shows "liveTranscriptRef (dispatch E (Message now m) s) =
           (if turnComplete m then \<lparr>user = [], assistant = []\<rparr>
            else \<lparr>user = user (liveTranscriptRef s) @ userText [m],
                  assistant = assistant (liveTranscriptRef s) @ assistantText [m]\<rparr>)"
    and "liveTranscript (dispatch E (Message now m) s) =
           (if turnComplete m \<and> \<not> updaterAtCall E then \<lparr>user = [], assistant = []\<rparr>
            else \<lparr>user = user (liveTranscriptRef s) @ userText [m],
                  assistant = assistant (liveTranscriptRef s) @ assistantText [m]\<rparr>)"
    and "published (effects (dispatch E (Message now m) s)) =
           published (effects s) @
           [if turnComplete m \<and> \<not> updaterAtCall E then \<lparr>user = [], assistant = []\<rparr>
            else \<lparr>user = user (liveTranscriptRef s) @ userText [m],
                  assistant = assistant (liveTranscriptRef s) @ assistantText [m]\<rparr>]"
    and "liveSessionPromiseRef (dispatch E (Message now m) s) = Some k"
proof -
  let ?s1 = "if interrupted m then flush s else s"
  let ?s2 = "snd (onToolCall E m ?s1)"
  have eq: "onmessage E now m s = onAudio E now m (onTurn E m (onTranscription m ?s2))"
    using assms by (rule onmessage_open)
  have u: "untouched ?s1 ?s2" by (rule onToolCall_untouched)
  have r: "liveTranscriptRef ?s2 = liveTranscriptRef s"
    "liveSessionPromiseRef ?s2 = Some k"
    using u assms(1) by (simp_all add: untouched_def)
  have p: "published (effects ?s2) = published (effects s)"
    using u by (simp add: untouched_def)
  show "liveTranscriptRef (dispatch E (Message now m) s) =
           (if turnComplete m then \<lparr>user = [], assistant = []\<rparr>
            else \<lparr>user = user (liveTranscriptRef s) @ userText [m],
                  assistant = assistant (liveTranscriptRef s) @ assistantText [m]\<rparr>)"
    unfolding dispatch_Message_fields eq using r by simp
  show "liveTranscript (dispatch E (Message now m) s) =
           (if turnComplete m \<and> \<not> updaterAtCall E then \<lparr>user = [], assistant = []\<rparr>
            else \<lparr>user = user (liveTranscriptRef s) @ userText [m],
                  assistant = assistant (liveTranscriptRef s) @ assistantText [m]\<rparr>)"
    unfolding dispatch_Message_fields eq using r by simp
  show "published (effects (dispatch E (Message now m) s)) =
           published (effects s) @
           [if turnComplete m \<and> \<not> updaterAtCall E then \<lparr>user = [], assistant = []\<rparr>
            else \<lparr>user = user (liveTranscriptRef s) @ userText [m],
                  assistant = assistant (liveTranscriptRef s) @ assistantText [m]\<rparr>]"
    unfolding dispatch_Message_fields eq using r p by simp
  show "liveSessionPromiseRef (dispatch E (Message now m) s) = Some k"
    unfolding dispatch_Message_fields eq using r by simp
qed

lemma run_Cons: "run E (ev # evs) s = run E evs (dispatch E ev s)"
  by (simp add: run_def)

lemma run_append: "run E (evs @ evs') s = run E evs' (run E evs s)"
  by (simp add: run_def)

lemma run_Nil: "run E [] s = s"
  by (simp add: run_def)

lemma run_session:
  "liveSessionPromiseRef (run E (map (\<lambda>tm. Message (fst tm) (snd tm)) tms) s) =
     liveSessionPromiseRef s"
proof (induction tms arbitrary: s)
  case Nil
  show ?case by (simp add: run_Nil)
next
  case (Cons tm tms)
  have "liveSessionPromiseRef (dispatch E (Message (fst tm) (snd tm)) s) =
      liveSessionPromiseRef s"
    unfolding dispatch_Message_fields by (rule onmessage_session)
  then show ?case
    using Cons.IH [of "dispatch E (Message (fst tm) (snd tm)) s"]
    by (simp add: run_Cons del: dispatch.simps)
qed

lemma run_transcript:
  assumes "liveSessionPromiseRef s = Some k" and "\<forall>tm \<in> set tms. \<not> turnComplete (snd tm)"
    and "\<forall>tm \<in> set tms. callsHaveArgs (snd tm)"
  shows "liveTranscriptRef (run E (map (\<lambda>tm. Message (fst tm) (snd tm)) tms) s) =
           \<lparr>user = user (liveTranscriptRef s) @ userText (map snd tms),
            assistant = assistant (liveTranscriptRef s) @ assistantText (map snd tms)\<rparr> \<and>
         liveSessionPromiseRef (run E (map (\<lambda>tm. Message (fst tm) (snd tm)) tms) s) = Some k"
  using assms
proof (induction tms arbitrary: s)
  case Nil
  then show ?case by (simp add: run_Nil userText_def assistantText_def)
next
  case (Cons tm tms)
  let ?s' = "dispatch E (Message (fst tm) (snd tm)) s"
  have h: "callsHaveArgs (snd tm)"
    using Cons.prems(3) by simp
  have a: "liveSessionPromiseRef ?s' = Some k"
    using Cons.prems(1) h by (rule message_transcript(4))
  have b: "liveTranscriptRef ?s' =
      \<lparr>user = user (liveTranscriptRef s) @ userText [snd tm],
       assistant = assistant (liveTranscriptRef s) @ assistantText [snd tm]\<rparr>"
    using message_transcript(1) [OF Cons.prems(1) h, of E "fst tm"] Cons.prems(2)
    by simp
  have c: "\<forall>tm \<in> set tms. \<not> turnComplete (snd tm)"
    using Cons.prems(2) by simp
  have c': "\<forall>tm \<in> set tms. callsHaveArgs (snd tm)"
    using Cons.prems(3) by simp
  have t: "userText (snd tm # map snd tms) = userText [snd tm] @ userText (map snd tms)"
    "assistantText (snd tm # map snd tms) =
       assistantText [snd tm] @ assistantText (map snd tms)"
    by (simp_all add: userText_def assistantText_def)
  show ?case
    using Cons.IH [OF a c c'] b t
    by (simp add: run_Cons)
qed

text \<open>
  While the session is open and the function calls of the messages have their arguments:
  after any messages without the turn-complete flag, in any interleaving of the two
  roles, the accumulators hold what they held before followed by all the fragments
  received. If React runs the updater of a message with the flag inside the call, that
  message publishes the accumulated text of each role (its own fragments included) and
  leaves both accumulators empty.
\<close>

lemma updater_at_call_publishes_fragments:
  assumes "liveSessionPromiseRef s = Some k"
    and "\<forall>tm \<in> set tms. \<not> turnComplete (snd tm)"
    and "turnComplete tc" and "updaterAtCall E"
    and "\<forall>tm \<in> set tms. callsHaveArgs (snd tm)" and "callsHaveArgs tc"
  shows "liveTranscript (run E (map (\<lambda>tm. Message (fst tm) (snd tm)) tms @ [Message now tc]) s) =
           \<lparr>user = user (liveTranscriptRef s) @ userText (map snd tms @ [tc]),
            assistant = assistant (liveTranscriptRef s) @ assistantText (map snd tms @ [tc])\<rparr> \<and>
         last (published (effects
             (run E (map (\<lambda>tm. Message (fst tm) (snd tm)) tms @ [Message now tc]) s))) =
           \<lparr>user = user (liveTranscriptRef s) @ userText (map snd tms @ [tc]),
            assistant = assistant (liveTranscriptRef s) @ assistantText (map snd tms @ [tc])\<rparr> \<and>
         liveTranscriptRef
           (run E (map (\<lambda>tm. Message (fst tm) (snd tm)) tms @ [Message now tc]) s) =
           \<lparr>user = [], assistant = []\<rparr>"
proof -
  let ?s1 = "run E (map (\<lambda>tm. Message (fst tm) (snd tm)) tms) s"
  have a: "liveSessionPromiseRef ?s1 = Some k"
    and b: "liveTranscriptRef ?s1 =
      \<lparr>user = user (liveTranscriptRef s) @ userText (map snd tms),
       assistant = assistant (liveTranscriptRef s) @ assistantText (map snd tms)\<rparr>"
    using run_transcript [OF assms(1,2,5), of E] by simp_all
  have t: "userText (map snd tms @ [tc]) = userText (map snd tms) @ userText [tc]"
    "assistantText (map snd tms @ [tc]) = assistantText (map snd tms) @ assistantText [tc]"
    by (simp_all add: userText_def assistantText_def)
  show ?thesis
    using message_transcript [OF a assms(6), of E now] b assms(3,4) t
    by (simp add: run_append run_Cons run_Nil)
qed

text \<open>
  C5. While the session is open and React runs updaters at the next render: after any
  messages without the turn-complete flag, a message with the flag (whose function
  calls, if it carries any, have their arguments) publishes the empty text for both
  roles, whatever fragments were received, and leaves both accumulators empty. The
  updater given to \<open>setLiveTranscript\<close> reads the accumulators, and the handler has reset
  them before React runs it.
\<close>

theorem deferred_updater_publishes_nothing:
  assumes "liveSessionPromiseRef s = Some k"
    and "\<forall>tm \<in> set tms. \<not> turnComplete (snd tm)"
    and "turnComplete tc" and "\<not> updaterAtCall E" and "callsHaveArgs tc"
  shows "liveTranscript (run E (map (\<lambda>tm. Message (fst tm) (snd tm)) tms @ [Message now tc]) s) =
           \<lparr>user = [], assistant = []\<rparr> \<and>
         last (published (effects
             (run E (map (\<lambda>tm. Message (fst tm) (snd tm)) tms @ [Message now tc]) s))) =
           \<lparr>user = [], assistant = []\<rparr> \<and>
         liveTranscriptRef
           (run E (map (\<lambda>tm. Message (fst tm) (snd tm)) tms @ [Message now tc]) s) =
           \<lparr>user = [], assistant = []\<rparr>"
proof -
  let ?s1 = "run E (map (\<lambda>tm. Message (fst tm) (snd tm)) tms) s"
  have a: "liveSessionPromiseRef ?s1 = Some k"
    using run_session [of E tms s] assms(1) by simp
  show ?thesis
    using message_transcript [OF a assms(5), of E now] assms(3,4)
    by (simp add: run_append run_Cons run_Nil)
qed

subsection \<open>Audio chunks and interruption\<close>

lemma chunkDuration_SomeD:
  assumes "chunkDuration E m = Some d"
  obtains a bytes b where "audioData m = Some a" and "a \<noteq> []" and "decode a = Inr bytes"
    and "decodeAudioData bytes (audioContext E) 24000 1 = Inr b" and "duration b = d"
proof -
  obtain a where a: "audioData m = Some a"
    using assms by (cases "audioData m") (simp_all add: chunkDuration_def)
  obtain bytes where b: "decode a = Inr bytes"
    using assms a by (cases "decode a") (simp_all add: chunkDuration_def)
  obtain buf where c: "decodeAudioData bytes (audioContext E) 24000 1 = Inr buf"
    using assms a b
    by (cases "decodeAudioData bytes (audioContext E) 24000 1") (simp_all add: chunkDuration_def)
  have d: "duration buf = d"
    using assms a b c by (simp add: chunkDuration_def)
  have "a \<noteq> []"
  proof
    assume "a = []"
    then have "decode a = Inr []"
      by (simp add: decode_def atob_def stripPadding_def)
    then have "bytes = []" using b by simp
    then have "decodeAudioData bytes (audioContext E) 24000 1 = Inl NotSupportedError"
      by (simp add: decodeAudioData_eq)
    then show False using c by simp
  qed
  then show ?thesis using that a b c d by blast
qed

lemma onAudio_chunk:
  assumes "outputAudioContextRef s" and "chunkDuration E m = Some d"
  shows "fst (onAudio E now m s) = None"
    and "nextStartTimeRef (snd (onAudio E now m s)) = max (nextStartTimeRef s) now + d"
    and "audioSourcesRef (snd (onAudio E now m s)) = audioSourcesRef s @ [sourcesCreated s]"
    and "sourcesCreated (snd (onAudio E now m s)) = Suc (sourcesCreated s)"
    and "liveStatus (snd (onAudio E now m s)) = Speaking"
    and "startTimes (effects (snd (onAudio E now m s))) =
           startTimes (effects s) @ [max (nextStartTimeRef s) now]"
    and "statusSets (effects (snd (onAudio E now m s))) = statusSets (effects s) @ [Speaking]"
proof -
  obtain a bytes b where h: "audioData m = Some a" "a \<noteq> []" "decode a = Inr bytes"
    "decodeAudioData bytes (audioContext E) 24000 1 = Inr b" "duration b = d"
    using assms(2) by (rule chunkDuration_SomeD)
  show "fst (onAudio E now m s) = None"
    and "nextStartTimeRef (snd (onAudio E now m s)) = max (nextStartTimeRef s) now + d"
    and "audioSourcesRef (snd (onAudio E now m s)) = audioSourcesRef s @ [sourcesCreated s]"
    and "sourcesCreated (snd (onAudio E now m s)) = Suc (sourcesCreated s)"
    and "liveStatus (snd (onAudio E now m s)) = Speaking"
    and "startTimes (effects (snd (onAudio E now m s))) =
           startTimes (effects s) @ [max (nextStartTimeRef s) now]"
    and "statusSets (effects (snd (onAudio E now m s))) = statusSets (effects s) @ [Speaking]"
    using h assms(1)
    by (simp_all add: onAudio_def setLiveStatus_def emit_def Let_def)
qed

lemma onAudio_silent:
  assumes "audioData m = None"
  shows "onAudio E now m s = (None, s)"
  using assms by (simp add: onAudio_def)


lemma onmessage_chunk:
  assumes "liveSessionPromiseRef s = Some k" and "outputAudioContextRef s"
    and "chunkDuration E m = Some d" and "callsHaveArgs m"
  shows "fst (onmessage E now m s) = None"
    and "nextStartTimeRef (snd (onmessage E now m s)) =
           max (if interrupted m then 0 else nextStartTimeRef s) now + d"
    and "audioSourcesRef (snd (onmessage E now m s)) =
           (if interrupted m then [] else audioSourcesRef s) @ [sourcesCreated s]"
    and "sourcesCreated (snd (onmessage E now m s)) = Suc (sourcesCreated s)"
    and "liveStatus (snd (onmessage E now m s)) = Speaking"
    and "startTimes (effects (snd (onmessage E now m s))) =
           startTimes (effects s) @ [max (if interrupted m then 0 else nextStartTimeRef s) now]"
    and "liveSessionPromiseRef (snd (onmessage E now m s)) = Some k"
    and "outputAudioContextRef (snd (onmessage E now m s))"
proof -
  let ?s1 = "if interrupted m then flush s else s"
  let ?s2 = "snd (onToolCall E m ?s1)"
  let ?s3 = "onTurn E m (onTranscription m ?s2)"
  have eq: "onmessage E now m s = onAudio E now m ?s3"
    using assms(1,4) by (rule onmessage_open)
  have u: "untouched ?s1 ?s2" by (rule onToolCall_untouched)
  have c: "outputAudioContextRef ?s3"
    using u assms(2) by (simp add: untouched_def)
  have f: "nextStartTimeRef ?s3 = (if interrupted m then 0 else nextStartTimeRef s)"
    "audioSourcesRef ?s3 = (if interrupted m then [] else audioSourcesRef s)"
    "sourcesCreated ?s3 = sourcesCreated s"
    "startTimes (effects ?s3) = startTimes (effects s)"
    "liveSessionPromiseRef ?s3 = Some k"
    using u assms(1) by (simp_all add: untouched_def)
  show "fst (onmessage E now m s) = None"
    unfolding eq by (rule onAudio_chunk(1) [OF c assms(3)])
  show "nextStartTimeRef (snd (onmessage E now m s)) =
           max (if interrupted m then 0 else nextStartTimeRef s) now + d"
    unfolding eq onAudio_chunk(2) [OF c assms(3)] f by (rule refl)
  show "audioSourcesRef (snd (onmessage E now m s)) =
           (if interrupted m then [] else audioSourcesRef s) @ [sourcesCreated s]"
    unfolding eq onAudio_chunk(3) [OF c assms(3)] f by (rule refl)
  show "sourcesCreated (snd (onmessage E now m s)) = Suc (sourcesCreated s)"
    unfolding eq onAudio_chunk(4) [OF c assms(3)] f by (rule refl)
  show "liveStatus (snd (onmessage E now m s)) = Speaking"
    unfolding eq by (rule onAudio_chunk(5) [OF c assms(3)])
  show "startTimes (effects (snd (onmessage E now m s))) =
           startTimes (effects s) @ [max (if interrupted m then 0 else nextStartTimeRef s) now]"
    unfolding eq onAudio_chunk(6) [OF c assms(3)] f by (rule refl)
  show "liveSessionPromiseRef (snd (onmessage E now m s)) = Some k"
    unfolding eq using f by simp
  show "outputAudioContextRef (snd (onmessage E now m s))"
    unfolding eq using c by simp
qed

lemma onmessage_interrupted:
  assumes "interrupted m" and "audioData m = None"
  shows "stopped (effects (snd (onmessage E now m s))) = stopped (effects s) @ audioSourcesRef s"
    and "audioSourcesRef (snd (onmessage E now m s)) = []"
    and "nextStartTimeRef (snd (onmessage E now m s)) = 0"
    and "liveSessionPromiseRef (snd (onmessage E now m s)) = liveSessionPromiseRef s"
    and "outputAudioContextRef (snd (onmessage E now m s)) = outputAudioContextRef s"
proof -
  obtain e t where h: "onToolCall E m (flush s) = (e, t)"
    by (cases "onToolCall E m (flush s)")
  have u: "untouched (flush s) t"
    using onToolCall_untouched [of "flush s" E m] h by simp
  have r: "snd (onmessage E now m s) =
      (case e of None \<Rightarrow> onTurn E m (onTranscription m t) | Some err \<Rightarrow> t)"
    using assms h by (simp add: onmessage_def onAudio_silent split: option.split)
  show "stopped (effects (snd (onmessage E now m s))) = stopped (effects s) @ audioSourcesRef s"
    and "audioSourcesRef (snd (onmessage E now m s)) = []"
    and "nextStartTimeRef (snd (onmessage E now m s)) = 0"
    and "liveSessionPromiseRef (snd (onmessage E now m s)) = liveSessionPromiseRef s"
    and "outputAudioContextRef (snd (onmessage E now m s)) = outputAudioContextRef s"
    unfolding r using u by (simp_all add: untouched_def split: option.split)
qed

text \<open>
  C1. A message with the interruption flag (and no audio payload of its own) stops every
  source of the active set, in the order of the set, empties the set and resets the
  offset to zero, whatever the tool calls of the message do. The chunk of the next
  message with audio (whose function calls, if it carries any, have their arguments),
  at the clock \<open>now'\<close>, then starts at \<open>now'\<close>: its offset from the clock is zero,
  whatever the offset was before the interruption. (The code takes the maximum of the
  offset and the clock, and the clock of an audio context is never negative.)
\<close>

theorem interruption_flushes_playback:
  assumes "interrupted m" and "audioData m = None"
    and "liveSessionPromiseRef s = Some k" and "outputAudioContextRef s"
    and "chunkDuration E m' = Some d" and "0 \<le> now'" and "callsHaveArgs m'"
  shows "stopped (effects (snd (onmessage E now m s))) = stopped (effects s) @ audioSourcesRef s \<and>
         audioSourcesRef (snd (onmessage E now m s)) = [] \<and>
         nextStartTimeRef (snd (onmessage E now m s)) = 0 \<and>
         startTimes (effects (snd (onmessage E now' m' (snd (onmessage E now m s))))) =
           startTimes (effects (snd (onmessage E now m s))) @ [now'] \<and>
         fst (onmessage E now' m' (snd (onmessage E now m s))) = None"
proof -
  let ?s1 = "snd (onmessage E now m s)"
  have a: "liveSessionPromiseRef ?s1 = Some k" "outputAudioContextRef ?s1"
    using onmessage_interrupted(4,5) [OF assms(1,2), of E now s] assms(3,4) by simp_all
  have z: "nextStartTimeRef ?s1 = 0"
    by (rule onmessage_interrupted(3) [OF assms(1,2)])
  have "startTimes (effects (snd (onmessage E now' m' ?s1))) =
      startTimes (effects ?s1) @ [max (if interrupted m' then 0 else nextStartTimeRef ?s1) now']"
    by (rule onmessage_chunk(6) [OF a assms(5,7)])
  then have st: "startTimes (effects (snd (onmessage E now' m' ?s1))) =
      startTimes (effects ?s1) @ [now']"
    using z assms(6) by simp
  show ?thesis
    using onmessage_interrupted(1,2) [OF assms(1,2), of E now s] z st
      onmessage_chunk(1) [OF a assms(5,7), of now']
    by simp
qed

subsection \<open>Runs of audio chunks\<close>

lemma filter_silence:
  "filter (\<lambda>c. \<not> isAsciiWhitespace c) (silence n) = silence n"
  by (induction n) (simp_all add: silence_def isAsciiWhitespace_def)

lemma length_silence: "length (silence n) = 4 * n"
  by (induction n) (simp_all add: silence_def)

lemma silence_Suc: "silence (Suc n) = ''AAAA'' @ silence n"
  by (simp add: silence_def)

lemma silence_Suc': "silence (Suc n) = silence n @ ''AAAA''"
  by (induction n) (simp_all add: silence_def)

lemma stripPadding_silence: "stripPadding (silence n) = silence n"
proof (cases n)
  case 0
  then show ?thesis by (simp add: stripPadding_def silence_def)
next
  case (Suc k)
  then show ?thesis
    by (simp add: stripPadding_def silence_Suc' length_silence)
qed

lemma replicate_four: "replicate (4 * Suc n) x = x # x # x # x # replicate (4 * n) x"
proof -
  have "4 * Suc n = Suc (Suc (Suc (Suc (4 * n))))" by simp
  then show ?thesis by (simp only: replicate_Suc)
qed

lemma replicate_three: "replicate (3 * Suc n) x = x # x # x # replicate (3 * n) x"
proof -
  have "3 * Suc n = Suc (Suc (Suc (3 * n)))" by simp
  then show ?thesis by (simp only: replicate_Suc)
qed

lemma b64indices_silence: "b64indices (silence n) = Some (replicate (4 * n) 0)"
proof (induction n)
  case 0
  show ?case by (simp add: silence_def)
next
  case (Suc n)
  have "b64index (CHR ''A'') = Some 0" by (simp add: b64index_def)
  then show ?case
    using Suc by (simp add: silence_Suc replicate_four del: replicate_Suc mult_Suc_right)
qed

lemma atobGroups_zeros: "atobGroups (replicate (4 * n) 0) = replicate (3 * n) 0"
proof (induction n)
  case 0
  show ?case by simp
next
  case (Suc n)
  then show ?case
    by (simp add: replicate_four replicate_three del: replicate_Suc mult_Suc_right)
qed

lemma decode_silence: "decode (silence n) = Inr (replicate (3 * n) 0)"
  by (simp add: decode_def atob_def filter_silence stripPadding_silence length_silence
      b64indices_silence atobGroups_zeros)

lemma chunkDuration_chunk:
  assumes "even n" and "0 < n" and "n < 2 ^ 31" and "conforming (audioContext E)"
  shows "chunkDuration E (chunk n) = Some (real (3 * n div 2) / 24000)"
proof -
  have "2 \<le> 3 * n" using assms(1,2) by (auto elim: evenE)
  then have p: "0 < 3 * n div 2" by simp
  have l: "length (replicate (3 * n) (0 :: byte)) < 2 ^ 33"
    using assms(3) by simp
  have "decodeAudioData (replicate (3 * n) 0) (audioContext E) 24000 1 =
      Inr \<lparr>rate = 24000, frames = 3 * n div 2,
            channelData = [map (sampleAt (int16Pairs (replicate (3 * n) 0))) [0..<3 * n div 2]]\<rparr>"
    using decodeAudioData_mono [OF assms(4) l] assms(1) p by simp
  then show ?thesis
    by (simp add: chunkDuration_def chunk_def decode_silence duration_def)
qed

lemma conforming_sample: "conforming (audioContext sampleSetting)"
  by (simp add: conforming_def sampleSetting_def sampleContext_def)


lemma dispatch_chunk:
  assumes "liveSessionPromiseRef s = Some k" and "outputAudioContextRef s"
    and "chunkDuration E m = Some d" and "\<not> interrupted m" and "callsHaveArgs m"
  shows "liveSessionPromiseRef (dispatch E (Message now m) s) = Some k"
    and "outputAudioContextRef (dispatch E (Message now m) s)"
    and "nextStartTimeRef (dispatch E (Message now m) s) = max (nextStartTimeRef s) now + d"
    and "audioSourcesRef (dispatch E (Message now m) s) = audioSourcesRef s @ [sourcesCreated s]"
    and "sourcesCreated (dispatch E (Message now m) s) = Suc (sourcesCreated s)"
    and "liveStatus (dispatch E (Message now m) s) = Speaking"
    and "startTimes (effects (dispatch E (Message now m) s)) =
           startTimes (effects s) @ [max (nextStartTimeRef s) now]"
  unfolding dispatch_Message_fields
  using onmessage_chunk [OF assms(1,2,3,5), of now] assms(4)
  by simp_all

lemma dispatch_chunk_status:
  assumes "liveSessionPromiseRef s = Some k" and "outputAudioContextRef s"
    and "chunkDuration E m = Some d" and "\<not> interrupted m" and "\<not> turnComplete m"
    and "callsHaveArgs m"
  shows "statusSets (effects (dispatch E (Message now m) s)) = statusSets (effects s) @ [Speaking]"
proof -
  let ?s2 = "snd (onToolCall E m s)"
  let ?s3 = "onTurn E m (onTranscription m ?s2)"
  have eq: "onmessage E now m s = onAudio E now m ?s3"
    using onmessage_open [OF assms(1,6), of E now] assms(4) by simp
  have u: "untouched s ?s2" by (rule onToolCall_untouched)
  have c: "outputAudioContextRef ?s3"
    using u assms(2) by (simp add: untouched_def)
  have f: "statusSets (effects ?s3) = statusSets (effects s)"
    using u assms(5) by (simp add: untouched_def)
  show ?thesis
    unfolding dispatch_Message_fields eq onAudio_chunk(7) [OF c assms(3)] f by (rule refl)
qed

lemma offsets_formula:
  fixes t :: real
  shows "map (\<lambda>i. t + sum_list (take i (d # ds))) [0..<Suc (length ds)] =
         t # map (\<lambda>i. (t + d) + sum_list (take i ds)) [0..<length ds]"
proof -
  have "[0..<Suc (length ds)] = 0 # map Suc [0..<length ds]"
    by (simp add: upt_conv_Cons map_Suc_upt del: upt_Suc)
  then show ?thesis by (simp add: comp_def add.assoc del: upt_Suc)
qed

lemma run_chunks:
  assumes "liveSessionPromiseRef s = Some k" and "outputAudioContextRef s"
    and "\<forall>tm \<in> set tms. \<not> interrupted (snd tm)"
    and "map (\<lambda>tm. chunkDuration E (snd tm)) tms = map Some ds"
    and "\<forall>tm \<in> set tms. callsHaveArgs (snd tm)"
    and "\<forall>i < length tms. fst (tms ! i) \<le> nextStartTimeRef s + sum_list (take i ds)"
  shows "startTimes (effects (run E (map (\<lambda>tm. Message (fst tm) (snd tm)) tms) s)) =
           startTimes (effects s) @
           map (\<lambda>i. nextStartTimeRef s + sum_list (take i ds)) [0..<length ds] \<and>
         nextStartTimeRef (run E (map (\<lambda>tm. Message (fst tm) (snd tm)) tms) s) =
           nextStartTimeRef s + sum_list ds"
  using assms
proof (induction tms arbitrary: s ds)
  case Nil
  then show ?case by (simp add: run_Nil)
next
  case (Cons tm tms)
  obtain d ds' where ds: "ds = d # ds'"
    using Cons.prems(4) by (cases ds) simp_all
  have cd: "chunkDuration E (snd tm) = Some d"
    and rest: "map (\<lambda>tm. chunkDuration E (snd tm)) tms = map Some ds'"
    using Cons.prems(4) ds by simp_all
  have ni: "\<not> interrupted (snd tm)" and nis: "\<forall>tm \<in> set tms. \<not> interrupted (snd tm)"
    using Cons.prems(3) by simp_all
  have ha: "callsHaveArgs (snd tm)" and has: "\<forall>tm \<in> set tms. callsHaveArgs (snd tm)"
    using Cons.prems(5) by simp_all
  have early: "fst tm \<le> nextStartTimeRef s"
    using Cons.prems(6) by fastforce
  let ?s' = "dispatch E (Message (fst tm) (snd tm)) s"
  note dc = dispatch_chunk [OF Cons.prems(1,2) cd ni ha, of "fst tm"]
  have nx: "nextStartTimeRef ?s' = nextStartTimeRef s + d"
    using dc(3) early by simp
  have st: "startTimes (effects ?s') = startTimes (effects s) @ [nextStartTimeRef s]"
    using dc(7) early by simp
  have tl: "\<forall>i < length tms. fst (tms ! i) \<le> nextStartTimeRef ?s' + sum_list (take i ds')"
  proof (intro allI impI)
    fix i assume "i < length tms"
    then have "fst ((tm # tms) ! Suc i) \<le> nextStartTimeRef s + sum_list (take (Suc i) ds)"
      using Cons.prems(6) by (metis Suc_less_eq length_Cons)
    then show "fst (tms ! i) \<le> nextStartTimeRef ?s' + sum_list (take i ds')"
      using nx ds by simp
  qed
  have len: "length ds' = length tms"
    using rest by (metis length_map)
  show ?case
    using Cons.IH [OF dc(1) dc(2) nis rest has tl] nx st
    by (simp add: run_Cons ds offsets_formula add.assoc del: upt_Suc)
qed


lemma run_chunks_open:
  assumes "liveSessionPromiseRef s = Some k" and "outputAudioContextRef s"
    and "\<forall>tm \<in> set tms. \<not> interrupted (snd tm)"
    and "map (\<lambda>tm. chunkDuration E (snd tm)) tms = map Some ds"
    and "\<forall>tm \<in> set tms. callsHaveArgs (snd tm)"
  shows "liveSessionPromiseRef (run E (map (\<lambda>tm. Message (fst tm) (snd tm)) tms) s) = Some k \<and>
         outputAudioContextRef (run E (map (\<lambda>tm. Message (fst tm) (snd tm)) tms) s)"
  using assms
proof (induction tms arbitrary: s ds)
  case Nil
  then show ?case by (simp add: run_Nil)
next
  case (Cons tm tms)
  obtain d ds' where ds: "ds = d # ds'"
    using Cons.prems(4) by (cases ds) simp_all
  have cd: "chunkDuration E (snd tm) = Some d"
    and rest: "map (\<lambda>tm. chunkDuration E (snd tm)) tms = map Some ds'"
    using Cons.prems(4) ds by simp_all
  have ni: "\<not> interrupted (snd tm)" and nis: "\<forall>tm \<in> set tms. \<not> interrupted (snd tm)"
    using Cons.prems(3) by simp_all
  have ha: "callsHaveArgs (snd tm)" and has: "\<forall>tm \<in> set tms. callsHaveArgs (snd tm)"
    using Cons.prems(5) by simp_all
  note dc = dispatch_chunk [OF Cons.prems(1,2) cd ni ha, of "fst tm"]
  show ?case
    using Cons.IH [OF dc(1) dc(2) nis rest has] by (simp add: run_Cons)
qed

lemma run_chunks_step:
  assumes "liveSessionPromiseRef s = Some k" and "outputAudioContextRef s"
    and "\<forall>tm \<in> set tms. \<not> interrupted (snd tm)"
    and "map (\<lambda>tm. chunkDuration E (snd tm)) tms = map Some ds"
    and "\<forall>tm \<in> set tms. callsHaveArgs (snd tm)"
    and "i < length tms"
  shows "startTimes (effects (run E (map (\<lambda>tm. Message (fst tm) (snd tm)) (take (Suc i) tms)) s)) =
           startTimes (effects (run E (map (\<lambda>tm. Message (fst tm) (snd tm)) (take i tms)) s)) @
           [max (nextStartTimeRef (run E (map (\<lambda>tm. Message (fst tm) (snd tm)) (take i tms)) s))
              (fst (tms ! i))] \<and>
         nextStartTimeRef (run E (map (\<lambda>tm. Message (fst tm) (snd tm)) (take (Suc i) tms)) s) =
           max (nextStartTimeRef (run E (map (\<lambda>tm. Message (fst tm) (snd tm)) (take i tms)) s))
             (fst (tms ! i)) + ds ! i"
proof -
  let ?si = "run E (map (\<lambda>tm. Message (fst tm) (snd tm)) (take i tms)) s"
  have len: "length ds = length tms"
    using assms(4) by (metis length_map)
  have a: "\<forall>tm \<in> set (take i tms). \<not> interrupted (snd tm)"
    using assms(3) by (meson in_set_takeD)
  have b: "map (\<lambda>tm. chunkDuration E (snd tm)) (take i tms) = map Some (take i ds)"
    using assms(4) by (metis take_map)
  have a': "\<forall>tm \<in> set (take i tms). callsHaveArgs (snd tm)"
    using assms(5) by (meson in_set_takeD)
  have o: "liveSessionPromiseRef ?si = Some k" "outputAudioContextRef ?si"
    using run_chunks_open [OF assms(1,2) a b a'] by simp_all
  have cd: "chunkDuration E (snd (tms ! i)) = Some (ds ! i)"
  proof -
    have "map (\<lambda>tm. chunkDuration E (snd tm)) tms ! i = map Some ds ! i"
      using assms(4) by simp
    then show ?thesis using assms(6) len by simp
  qed
  have ni: "\<not> interrupted (snd (tms ! i))"
    using assms(3,6) by simp
  have ha: "callsHaveArgs (snd (tms ! i))"
    using assms(5,6) by simp
  have t: "take (Suc i) tms = take i tms @ [tms ! i]"
    using assms(6) by (rule take_Suc_conv_app_nth)
  note dc = dispatch_chunk [OF o cd ni ha, of "fst (tms ! i)"]
  show ?thesis
    using dc(3) dc(7) by (simp add: t run_append run_Cons run_Nil)
qed

text \<open>
  C2, as amended. While the session is open, for messages without the interruption flag
  whose payloads decode to chunks of durations \<open>ds\<close> (and whose function calls, if they
  carry any, have their arguments), received at the clock readings \<open>map fst tms\<close>:
  every chunk is started at the maximum of the offset and the clock,
  and the offset then is that start plus the duration of the chunk, so no chunk starts
  before the one before it ends. If moreover every chunk arrives no later than the
  offset then stands (the first one included), the \<open>i\<close>-th chunk starts at the first
  offset plus the durations of the chunks before it, without a gap.
\<close>

theorem chunks_scheduled_back_to_back:
  assumes "liveSessionPromiseRef s = Some k" and "outputAudioContextRef s"
    and "\<forall>tm \<in> set tms. \<not> interrupted (snd tm)"
    and "map (\<lambda>tm. chunkDuration E (snd tm)) tms = map Some ds"
    and "\<forall>tm \<in> set tms. callsHaveArgs (snd tm)"
  shows "(\<forall>i < length tms.
            startTimes (effects (run E (map (\<lambda>tm. Message (fst tm) (snd tm)) (take (Suc i) tms)) s)) =
              startTimes (effects (run E (map (\<lambda>tm. Message (fst tm) (snd tm)) (take i tms)) s)) @
              [max (nextStartTimeRef (run E (map (\<lambda>tm. Message (fst tm) (snd tm)) (take i tms)) s))
                 (fst (tms ! i))] \<and>
            nextStartTimeRef (run E (map (\<lambda>tm. Message (fst tm) (snd tm)) (take (Suc i) tms)) s) =
              max (nextStartTimeRef (run E (map (\<lambda>tm. Message (fst tm) (snd tm)) (take i tms)) s))
                (fst (tms ! i)) + ds ! i) \<and>
         ((\<forall>i < length tms. fst (tms ! i) \<le> nextStartTimeRef s + sum_list (take i ds)) \<longrightarrow>
            startTimes (effects (run E (map (\<lambda>tm. Message (fst tm) (snd tm)) tms) s)) =
              startTimes (effects s) @
              map (\<lambda>i. nextStartTimeRef s + sum_list (take i ds)) [0..<length ds] \<and>
            nextStartTimeRef (run E (map (\<lambda>tm. Message (fst tm) (snd tm)) tms) s) =
              nextStartTimeRef s + sum_list ds)"
  using run_chunks_step [OF assms] run_chunks [OF assms] by blast

lemma onmessage_stopped:
  assumes "liveSessionPromiseRef s = Some k" and "callsHaveArgs m"
  shows "stopped (effects (snd (onmessage E now m s))) =
           stopped (effects s) @ (if interrupted m then audioSourcesRef s else [])"
proof -
  let ?s1 = "if interrupted m then flush s else s"
  let ?s2 = "snd (onToolCall E m ?s1)"
  have eq: "onmessage E now m s = onAudio E now m (onTurn E m (onTranscription m ?s2))"
    using assms by (rule onmessage_open)
  have u: "untouched ?s1 ?s2" by (rule onToolCall_untouched)
  have "stopped (effects ?s2) = stopped (effects ?s1)"
    using u by (simp add: untouched_def)
  then show ?thesis unfolding eq by simp
qed

lemma dispatch_chunk_stopped:
  assumes "liveSessionPromiseRef s = Some k" and "\<not> interrupted m" and "callsHaveArgs m"
  shows "stopped (effects (dispatch E (Message now m) s)) = stopped (effects s)"
  unfolding dispatch_Message_fields onmessage_stopped [OF assms(1,3)] using assms(2) by simp


subsection \<open>A turn of three chunks\<close>

lemma handleToggleLiveMode_open:
  assumes "\<not> isLive s"
  shows "liveSessionPromiseRef (handleToggleLiveMode s) = Some (sessionsCreated s)"
    and "outputAudioContextRef (handleToggleLiveMode s)"
    and "audioSourcesRef (handleToggleLiveMode s) = audioSourcesRef s"
    and "nextStartTimeRef (handleToggleLiveMode s) = nextStartTimeRef s"
    and "sourcesCreated (handleToggleLiveMode s) = sourcesCreated s"
    and "liveStatus (handleToggleLiveMode s) = Listening"
    and "statusSets (effects (handleToggleLiveMode s)) = statusSets (effects s) @ [Listening]"
    and "startTimes (effects (handleToggleLiveMode s)) = startTimes (effects s)"
  using assms
  by (simp_all add: handleToggleLiveMode_def setLiveStatus_def emit_def Let_def)

lemma dispatch_turn_complete:
  assumes "liveSessionPromiseRef s = Some k" and "turnComplete m" and "\<not> interrupted m"
    and "audioData m = None" and "callsHaveArgs m"
  shows "audioSourcesRef (dispatch E (Message now m) s) = audioSourcesRef s"
    and "liveStatus (dispatch E (Message now m) s) =
           (if audioSourcesRef s = [] then Listening else liveStatus s)"
    and "statusSets (effects (dispatch E (Message now m) s)) =
           statusSets (effects s) @ (if audioSourcesRef s = [] then [Listening] else [])"
    and "startTimes (effects (dispatch E (Message now m) s)) = startTimes (effects s)"
proof -
  let ?s2 = "snd (onToolCall E m s)"
  have eq: "onmessage E now m s = (None, onTurn E m (onTranscription m ?s2))"
    using onmessage_open [OF assms(1,5), of E now] assms(3,4) by (simp add: onAudio_silent)
  have u: "untouched s ?s2" by (rule onToolCall_untouched)
  show "audioSourcesRef (dispatch E (Message now m) s) = audioSourcesRef s"
    and "liveStatus (dispatch E (Message now m) s) =
           (if audioSourcesRef s = [] then Listening else liveStatus s)"
    and "statusSets (effects (dispatch E (Message now m) s)) =
           statusSets (effects s) @ (if audioSourcesRef s = [] then [Listening] else [])"
    and "startTimes (effects (dispatch E (Message now m) s)) = startTimes (effects s)"
    unfolding dispatch_Message_fields eq using u assms(2) by (simp_all add: untouched_def)
qed

lemma dispatch_Ended:
  "audioSourcesRef (dispatch E (Ended h) s) = removeAll h (audioSourcesRef s)"
  "liveStatus (dispatch E (Ended h) s) =
     (if removeAll h (audioSourcesRef s) = [] then Listening else liveStatus s)"
  "statusSets (effects (dispatch E (Ended h) s)) =
     statusSets (effects s) @ (if removeAll h (audioSourcesRef s) = [] then [Listening] else [])"
  "startTimes (effects (dispatch E (Ended h) s)) = startTimes (effects s)"
  by (simp_all add: onended_def setLiveStatus_def emit_def Let_def)


lemma transitions_simps:
  "transitions a b st [] = 0"
  "transitions a b st (x # xs) = (if st = a \<and> x = b then 1 else 0) + transitions a b x xs"
  by (simp_all add: transitions_def)

text \<open>
  C6. Live mode is entered with no source active, and three messages arrive whose
  payloads decode to chunks of 1 s, 0.5 s and 0.2 s, none with the interruption or the
  turn-complete flag, each no later than the chunk before it ends (so the chunks start
  at \<open>t\<close>, \<open>t + 1\<close> and \<open>t + 1.5\<close> and end in the order of their creation); then a
  message with only the turn-complete flag arrives, and then the three sources end.
  The function calls of the four messages, if they carry any, have their arguments.
  The status is set to speaking by each chunk; the turn-complete message and the ends
  of the first two sources leave it speaking, and the end of the third source sets it to
  listening. Counted from the status after entering live mode, there is no change from
  speaking to listening before the third source ends, and exactly one after it.
\<close>

theorem one_transition_when_last_chunk_ends:
  fixes s :: state and E :: setting and na nb nc nd :: real and ma mb mc tc :: message
  assumes "\<not> isLive s" and "audioSourcesRef s = []"
    and "chunkDuration E ma = Some 1" and "chunkDuration E mb = Some (1 / 2)"
    and "chunkDuration E mc = Some (1 / 5)"
    and "\<not> interrupted ma \<and> \<not> interrupted mb \<and> \<not> interrupted mc"
    and "\<not> turnComplete ma \<and> \<not> turnComplete mb \<and> \<not> turnComplete mc"
    and "turnComplete tc \<and> \<not> interrupted tc \<and> audioData tc = None"
    and "nb \<le> max (nextStartTimeRef s) na + 1" and "nc \<le> max (nextStartTimeRef s) na + 3 / 2"
    and "callsHaveArgs ma \<and> callsHaveArgs mb \<and> callsHaveArgs mc \<and> callsHaveArgs tc"
  defines "s0 \<equiv> dispatch E ToggleLive s"
    and "h \<equiv> sourcesCreated s"
  defines "s3 \<equiv> run E [Message na ma, Message nb mb, Message nc mc] s0"
  defines "s4 \<equiv> dispatch E (Message nd tc) s3"
  defines "s5 \<equiv> run E [Ended h, Ended (h + 1)] s4"
  defines "s6 \<equiv> dispatch E (Ended (h + 2)) s5"
  shows "liveStatus s0 = Listening \<and>
         startTimes (effects s3) =
           startTimes (effects s0) @
           [max (nextStartTimeRef s) na, max (nextStartTimeRef s) na + 1,
            max (nextStartTimeRef s) na + 3 / 2] \<and>
         audioSourcesRef s4 = [h, h + 1, h + 2] \<and> liveStatus s4 = Speaking \<and>
         statusSets (effects s4) = statusSets (effects s0) @ [Speaking, Speaking, Speaking] \<and>
         liveStatus s5 = Speaking \<and> statusSets (effects s5) = statusSets (effects s4) \<and>
         liveStatus s6 = Listening \<and> audioSourcesRef s6 = [] \<and>
         statusSets (effects s6) = statusSets (effects s5) @ [Listening] \<and>
         transitions Speaking Listening (liveStatus s0)
           (drop (length (statusSets (effects s0))) (statusSets (effects s5))) = 0 \<and>
         transitions Speaking Listening (liveStatus s0)
           (drop (length (statusSets (effects s0))) (statusSets (effects s6))) = 1"
proof -
  let ?t = "max (nextStartTimeRef s) na"
  let ?s1 = "dispatch E (Message na ma) s0"
  let ?s2 = "dispatch E (Message nb mb) ?s1"
  have s0: "s0 = handleToggleLiveMode s"
    by (simp add: s0_def)
  note o = handleToggleLiveMode_open [OF assms(1)]
  have o1: "liveSessionPromiseRef s0 = Some (sessionsCreated s)" "outputAudioContextRef s0"
    unfolding s0 by (rule o(1), rule o(2))
  have f0: "audioSourcesRef s0 = []" "nextStartTimeRef s0 = nextStartTimeRef s"
    "sourcesCreated s0 = h" "liveStatus s0 = Listening"
    unfolding s0 o h_def using assms(2) by simp_all
  have ha: "callsHaveArgs ma" "callsHaveArgs mb" "callsHaveArgs mc" "callsHaveArgs tc"
    using assms(11) by simp_all
  have ni: "\<not> interrupted ma" "\<not> interrupted mb" "\<not> interrupted mc"
    and nt: "\<not> turnComplete ma" "\<not> turnComplete mb" "\<not> turnComplete mc"
    using assms(6,7) by simp_all
  note c1 = dispatch_chunk [OF o1 assms(3) ni(1) ha(1), of na]
    dispatch_chunk_status [OF o1 assms(3) ni(1) nt(1) ha(1), of na]
  have a1: "liveSessionPromiseRef ?s1 = Some (sessionsCreated s)" "outputAudioContextRef ?s1"
    "nextStartTimeRef ?s1 = ?t + 1" "audioSourcesRef ?s1 = [h]" "sourcesCreated ?s1 = Suc h"
    "startTimes (effects ?s1) = startTimes (effects s0) @ [?t]"
    "statusSets (effects ?s1) = statusSets (effects s0) @ [Speaking]"
    using c1 assms(6,7) f0 by simp_all
  note c2 = dispatch_chunk [OF a1(1,2) assms(4) ni(2) ha(2), of nb]
    dispatch_chunk_status [OF a1(1,2) assms(4) ni(2) nt(2) ha(2), of nb]
  have a2: "liveSessionPromiseRef ?s2 = Some (sessionsCreated s)" "outputAudioContextRef ?s2"
    "nextStartTimeRef ?s2 = ?t + 3 / 2" "audioSourcesRef ?s2 = [h, h + 1]"
    "sourcesCreated ?s2 = Suc (Suc h)"
    "startTimes (effects ?s2) = startTimes (effects s0) @ [?t, ?t + 1]"
    "statusSets (effects ?s2) = statusSets (effects s0) @ [Speaking, Speaking]"
    using c2 assms(6,7,9) a1 by simp_all
  have s3: "s3 = dispatch E (Message nc mc) ?s2"
    by (simp add: s3_def run_Cons run_Nil del: dispatch.simps)
  note c3 = dispatch_chunk [OF a2(1,2) assms(5) ni(3) ha(3), of nc]
    dispatch_chunk_status [OF a2(1,2) assms(5) ni(3) nt(3) ha(3), of nc]
  have a3: "liveSessionPromiseRef s3 = Some (sessionsCreated s)"
    "audioSourcesRef s3 = [h, h + 1, h + 2]" "liveStatus s3 = Speaking"
    "startTimes (effects s3) = startTimes (effects s0) @ [?t, ?t + 1, ?t + 3 / 2]"
    "statusSets (effects s3) = statusSets (effects s0) @ [Speaking, Speaking, Speaking]"
    unfolding s3 using c3 assms(6,7,10) a2 by simp_all
  have tc: "turnComplete tc" "\<not> interrupted tc" "audioData tc = None"
    using assms(8) by simp_all
  note t4 = dispatch_turn_complete [OF a3(1) tc ha(4), of E nd]
  have a4: "audioSourcesRef s4 = [h, h + 1, h + 2]" "liveStatus s4 = Speaking"
    "statusSets (effects s4) = statusSets (effects s0) @ [Speaking, Speaking, Speaking]"
    unfolding s4_def using t4 assms(8) a3 by simp_all
  have s5: "s5 = dispatch E (Ended (h + 1)) (dispatch E (Ended h) s4)"
    by (simp add: s5_def run_Cons run_Nil del: dispatch.simps)
  have a5: "audioSourcesRef s5 = [h + 2]" "liveStatus s5 = Speaking"
    "statusSets (effects s5) = statusSets (effects s4)"
    unfolding s5 dispatch_Ended using a4 by simp_all
  have a6: "audioSourcesRef s6 = []" "liveStatus s6 = Listening"
    "statusSets (effects s6) = statusSets (effects s5) @ [Listening]"
    unfolding s6_def dispatch_Ended using a5 by simp_all
  have t5: "transitions Speaking Listening (liveStatus s0)
           (drop (length (statusSets (effects s0))) (statusSets (effects s5))) = 0"
    unfolding a5 a4 f0 by (simp add: transitions_simps)
  have t6: "transitions Speaking Listening (liveStatus s0)
           (drop (length (statusSets (effects s0))) (statusSets (effects s6))) = 1"
    unfolding a6 a5 a4 f0 by (simp add: transitions_simps)
  show ?thesis
    using f0(4) a3(4) a4 a5(2,3) a6 t5 t6 by simp
qed



section \<open>The live session at concrete inputs\<close>

lemma liveState_fields:
  "liveSessionPromiseRef liveState = Some 0"
  "outputAudioContextRef liveState"
  "audioSourcesRef liveState = []"
  "nextStartTimeRef liveState = 0"
  "sourcesCreated liveState = 0"
  "liveStatus liveState = Listening"
  "currentMode liveState = ''Chat''"
  "currentPersonality liveState = ''Nihara''"
  "liveTranscriptRef liveState = \<lparr>user = [], assistant = []\<rparr>"
  "effects liveState = [SetLiveStatus Listening]"
  by (simp_all add: liveState_def handleToggleLiveMode_def initialState_def sampleSetting_def
      setLiveStatus_def emit_def Let_def)



text \<open>
  A \<open>changeMode\<close> call without \<open>args\<close>, handled while the session is open: the read of
  the argument ends the handler, and no response is sent for the call.
\<close>

lemma call_without_args_unanswered:
  "liveSessionPromiseRef liveState = Some 0 \<and>
   toolResponses (effects (dispatch sampleSetting
      (Message 0 (emptyMessage\<lparr>toolCall :=
         Some [\<lparr>fcId = ''call-1'', fcName = ''changeMode'', fcArgs = None\<rparr>]\<rparr>))
      liveState)) = [] \<and>
   uncaught (effects (dispatch sampleSetting
      (Message 0 (emptyMessage\<lparr>toolCall :=
         Some [\<lparr>fcId = ''call-1'', fcName = ''changeMode'', fcArgs = None\<rparr>]\<rparr>))
      liveState)) = [TypeError] \<and>
   currentMode (dispatch sampleSetting
      (Message 0 (emptyMessage\<lparr>toolCall :=
         Some [\<lparr>fcId = ''call-1'', fcName = ''changeMode'', fcArgs = None\<rparr>]\<rparr>))
      liveState) = ''Chat''"
  by (simp add: liveState_def handleToggleLiveMode_def initialState_def
      sampleSetting_def setLiveStatus_def emit_def Let_def emptyMessage_def
      onmessage_def onToolCall_def handleFunctionCall_def)

theorem reserved_mode_accepted_witness:
  "wellFormed sampleSetting \<and> currentMode liveState = ''Chat'' \<and>
   currentMode (snd (onmessage sampleSetting 0
      (emptyMessage\<lparr>toolCall := Some [changeModeCall ''call-2'' ''AI Diary'']\<rparr>) liveState)) =
     ''AI Diary'' \<and>
   ''AI Diary'' \<notin> set (changeModeDeclarationEnum sampleSetting)"
proof -
  let ?fc = "changeModeCall ''call-2'' ''AI Diary''"
  let ?m = "emptyMessage\<lparr>toolCall := Some [?fc]\<rparr>"
  have h1: "wellFormed sampleSetting"
    by (simp add: wellFormed_def sampleSetting_def)
  have h2: "liveSessionPromiseRef liveState = Some 0"
    by (rule liveState_fields)
  have h3: "toolCall ?m = Some [?fc]"
    by simp
  have h4: "fcName ?fc = ''changeMode''"
    by (simp add: changeModeCall_def)
  have h5: "fcArgs ?fc = Some [''mode'' \<mapsto> JString ''AI Diary'']"
    by (simp add: changeModeCall_def)
  have h6: "[''mode'' \<mapsto> JString ''AI Diary''] ''mode'' = Some (JString (AIDiary sampleSetting))"
    by (simp add: sampleSetting_def)
  have a: "AIDiary sampleSetting = ''AI Diary''"
    by (simp add: sampleSetting_def)
  show ?thesis
    using h1 reserved_mode_accepted [OF h1 h2 h3 h4 h5 h6, of 0]
    by (simp add: liveState_fields a)
qed

theorem deferred_updater_publishes_nothing_witness:
  "\<not> updaterAtCall sampleSetting \<and>
   assistantText [emptyMessage\<lparr>outputTranscription := Some ''Hel''\<rparr>,
                  emptyMessage\<lparr>inputTranscription := Some ''Hi''\<rparr>,
                  emptyMessage\<lparr>outputTranscription := Some ''lo ''\<rparr>] = ''Hello '' \<and>
   userText [emptyMessage\<lparr>outputTranscription := Some ''Hel''\<rparr>,
             emptyMessage\<lparr>inputTranscription := Some ''Hi''\<rparr>,
             emptyMessage\<lparr>outputTranscription := Some ''lo ''\<rparr>] = ''Hi'' \<and>
   liveTranscript (run sampleSetting
      [Message 0 (emptyMessage\<lparr>outputTranscription := Some ''Hel''\<rparr>),
       Message 1 (emptyMessage\<lparr>inputTranscription := Some ''Hi''\<rparr>),
       Message 2 (emptyMessage\<lparr>outputTranscription := Some ''lo ''\<rparr>),
       Message 3 (emptyMessage\<lparr>turnComplete := True\<rparr>)] liveState) =
     \<lparr>user = [], assistant = []\<rparr> \<and>
   liveTranscript (run sampleSetting
      [Message 0 (emptyMessage\<lparr>outputTranscription := Some ''Hel''\<rparr>),
       Message 1 (emptyMessage\<lparr>inputTranscription := Some ''Hi''\<rparr>),
       Message 2 (emptyMessage\<lparr>outputTranscription := Some ''lo ''\<rparr>),
       Message 3 (emptyMessage\<lparr>turnComplete := True\<rparr>)] liveState) \<noteq>
     \<lparr>user = ''Hi'', assistant = ''Hello ''\<rparr>"
proof -
  let ?tms = "[(0, emptyMessage\<lparr>outputTranscription := Some ''Hel''\<rparr>),
               (1, emptyMessage\<lparr>inputTranscription := Some ''Hi''\<rparr>),
               (2, emptyMessage\<lparr>outputTranscription := Some ''lo ''\<rparr>)]"
  let ?tc = "emptyMessage\<lparr>turnComplete := True\<rparr>"
  have h1: "liveSessionPromiseRef liveState = Some 0"
    by (rule liveState_fields)
  have h2: "\<forall>tm \<in> set ?tms. \<not> turnComplete (snd tm)"
    by (simp add: emptyMessage_def)
  have h3: "turnComplete ?tc"
    by simp
  have h4: "\<not> updaterAtCall sampleSetting"
    by (simp add: sampleSetting_def)
  have h5: "callsHaveArgs ?tc"
    by (simp add: callsHaveArgs_def emptyMessage_def)
  show ?thesis
    using h4 deferred_updater_publishes_nothing [OF h1 h2 h3 h4 h5, of 3]
    by (simp add: userText_def assistantText_def emptyMessage_def)
qed

lemma updater_at_call_publishes_fragments_example:
  "liveTranscript (run (sampleSetting\<lparr>updaterAtCall := True\<rparr>)
      [Message 0 (emptyMessage\<lparr>outputTranscription := Some ''Hel''\<rparr>),
       Message 1 (emptyMessage\<lparr>inputTranscription := Some ''Hi''\<rparr>),
       Message 2 (emptyMessage\<lparr>outputTranscription := Some ''lo ''\<rparr>),
       Message 3 (emptyMessage\<lparr>turnComplete := True\<rparr>)] liveState) =
     \<lparr>user = ''Hi'', assistant = ''Hello ''\<rparr> \<and>
   liveTranscriptRef (run (sampleSetting\<lparr>updaterAtCall := True\<rparr>)
      [Message 0 (emptyMessage\<lparr>outputTranscription := Some ''Hel''\<rparr>),
       Message 1 (emptyMessage\<lparr>inputTranscription := Some ''Hi''\<rparr>),
       Message 2 (emptyMessage\<lparr>outputTranscription := Some ''lo ''\<rparr>),
       Message 3 (emptyMessage\<lparr>turnComplete := True\<rparr>)] liveState) =
     \<lparr>user = [], assistant = []\<rparr>"
proof -
  let ?tms = "[(0, emptyMessage\<lparr>outputTranscription := Some ''Hel''\<rparr>),
               (1, emptyMessage\<lparr>inputTranscription := Some ''Hi''\<rparr>),
               (2, emptyMessage\<lparr>outputTranscription := Some ''lo ''\<rparr>)]"
  let ?tc = "emptyMessage\<lparr>turnComplete := True\<rparr>"
  have h1: "liveSessionPromiseRef liveState = Some 0"
    by (rule liveState_fields)
  have h2: "\<forall>tm \<in> set ?tms. \<not> turnComplete (snd tm)"
    by (simp add: emptyMessage_def)
  have h3: "turnComplete ?tc"
    by simp
  have h4: "updaterAtCall (sampleSetting\<lparr>updaterAtCall := True\<rparr>)"
    by simp
  have h5: "\<forall>tm \<in> set ?tms. callsHaveArgs (snd tm)"
    by (simp add: callsHaveArgs_def emptyMessage_def)
  have h6: "callsHaveArgs ?tc"
    by (simp add: callsHaveArgs_def emptyMessage_def)
  show ?thesis
    using updater_at_call_publishes_fragments [OF h1 h2 h3 h4 h5 h6, of 3]
    by (simp add: liveState_fields userText_def assistantText_def emptyMessage_def)
qed

lemma chunk_fields:
  "\<not> interrupted (chunk n)" "\<not> turnComplete (chunk n)" "toolCall (chunk n) = None"
  by (simp_all add: chunk_def emptyMessage_def)

lemma chunk_args: "callsHaveArgs (chunk n)"
  by (simp add: callsHaveArgs_def chunk_def emptyMessage_def)

lemma chunkDuration_chunk_2: "chunkDuration sampleSetting (chunk 2) = Some (1 / 8000)"
  using chunkDuration_chunk [of 2 sampleSetting] conforming_sample by simp

lemma chunkDuration_chunk_4: "chunkDuration sampleSetting (chunk 4) = Some (1 / 4000)"
  using chunkDuration_chunk [of 4 sampleSetting] conforming_sample by simp

lemma busyState_fields:
  "liveSessionPromiseRef busyState = Some 0"
  "outputAudioContextRef busyState"
  "audioSourcesRef busyState = [0, 1]"
  "nextStartTimeRef busyState = 1 / 4000"
  "startTimes (effects busyState) = [0, 1 / 8000]"
  "stopped (effects busyState) = []"
proof -
  let ?s1 = "dispatch sampleSetting (Message 0 (chunk 2)) liveState"
  note a = dispatch_chunk [OF liveState_fields(1,2) chunkDuration_chunk_2 chunk_fields(1)
      chunk_args, of 0]
  note b = dispatch_chunk [OF a(1,2) chunkDuration_chunk_2 chunk_fields(1) chunk_args, of 0]
  have e: "busyState = dispatch sampleSetting (Message 0 (chunk 2)) ?s1"
    by (simp add: busyState_def run_Cons run_Nil)
  show "liveSessionPromiseRef busyState = Some 0"
    unfolding e by (rule b(1))
  show "outputAudioContextRef busyState"
    unfolding e by (rule b(2))
  show "audioSourcesRef busyState = [0, 1]"
    unfolding e b(4) a(4) a(5) by (simp add: liveState_fields)
  show "nextStartTimeRef busyState = 1 / 4000"
    unfolding e b(3) a(3) by (simp add: liveState_fields)
  show "startTimes (effects busyState) = [0, 1 / 8000]"
    unfolding e b(7) a(7) a(3) by (simp add: liveState_fields)
  show "stopped (effects busyState) = []"
    unfolding e dispatch_chunk_stopped [OF a(1) chunk_fields(1) chunk_args]
      dispatch_chunk_stopped [OF liveState_fields(1) chunk_fields(1) chunk_args]
    by (simp add: liveState_fields)
qed

theorem interruption_flushes_playback_witness:
  "0 < nextStartTimeRef busyState \<and> audioSourcesRef busyState = [0, 1] \<and>
   stopped (effects (snd (onmessage sampleSetting (1 / 16000)
      (emptyMessage\<lparr>interrupted := True\<rparr>) busyState))) = [0, 1] \<and>
   audioSourcesRef (snd (onmessage sampleSetting (1 / 16000)
      (emptyMessage\<lparr>interrupted := True\<rparr>) busyState)) = [] \<and>
   nextStartTimeRef (snd (onmessage sampleSetting (1 / 16000)
      (emptyMessage\<lparr>interrupted := True\<rparr>) busyState)) = 0 \<and>
   startTimes (effects (snd (onmessage sampleSetting (1 / 10) (chunk 2)
      (snd (onmessage sampleSetting (1 / 16000)
         (emptyMessage\<lparr>interrupted := True\<rparr>) busyState))))) =
     startTimes (effects (snd (onmessage sampleSetting (1 / 16000)
        (emptyMessage\<lparr>interrupted := True\<rparr>) busyState))) @ [1 / 10]"
proof -
  let ?m = "emptyMessage\<lparr>interrupted := True\<rparr>"
  have h1: "interrupted ?m" by simp
  have h2: "audioData ?m = None" by (simp add: emptyMessage_def)
  have h6: "(0::real) \<le> 1 / 10" by simp
  show ?thesis
    using interruption_flushes_playback [OF h1 h2 busyState_fields(1,2) chunkDuration_chunk_2 h6
        chunk_args, of "1 / 16000"]
    by (simp add: busyState_fields)
qed


theorem chunks_scheduled_back_to_back_witness:
  "liveSessionPromiseRef liveState = Some 0 \<and> outputAudioContextRef liveState \<and>
   map (\<lambda>tm. chunkDuration sampleSetting (snd tm)) [(0, chunk 2), (0, chunk 2), (1 / 8000, chunk 4)] =
     map Some [1 / 8000, 1 / 8000, 1 / 4000] \<and>
   startTimes (effects (run sampleSetting
      [Message 0 (chunk 2), Message 0 (chunk 2), Message (1 / 8000) (chunk 4)] liveState)) =
     [0, 1 / 8000, 1 / 4000] \<and>
   nextStartTimeRef (run sampleSetting
      [Message 0 (chunk 2), Message 0 (chunk 2), Message (1 / 8000) (chunk 4)] liveState) =
     1 / 2000"
proof -
  let ?tms = "[(0, chunk 2), (0, chunk 2), (1 / 8000, chunk 4)] :: (real \<times> message) list"
  let ?ds = "[1 / 8000, 1 / 8000, 1 / 4000] :: real list"
  have h3: "\<forall>tm \<in> set ?tms. \<not> interrupted (snd tm)"
    by (simp add: chunk_fields)
  have h4: "map (\<lambda>tm. chunkDuration sampleSetting (snd tm)) ?tms = map Some ?ds"
    by (simp add: chunkDuration_chunk_2 chunkDuration_chunk_4)
  have h5: "\<forall>i < length ?tms. fst (?tms ! i) \<le> nextStartTimeRef liveState + sum_list (take i ?ds)"
    by (simp add: liveState_fields less_Suc_eq numeral_3_eq_3 all_conj_distrib)
  have h6: "\<forall>tm \<in> set ?tms. callsHaveArgs (snd tm)"
    by (simp add: chunk_args)
  have u: "[0..<3] = [0, 1, 2]"
    by (simp add: upt_rec)
  show ?thesis
    using chunks_scheduled_back_to_back [OF liveState_fields(1,2) h3 h4 h6] h4 h5
    by (simp add: liveState_fields u)
qed

theorem late_chunk_counterexample:
  "nextStartTimeRef liveState = 0 \<and> chunkDuration sampleSetting (chunk 2) = Some (1 / 8000) \<and>
   startTimes (effects (run sampleSetting [Message 0 (chunk 2), Message 5 (chunk 2)] liveState)) =
     [0, 5] \<and>
   startTimes (effects (run sampleSetting [Message 0 (chunk 2), Message 5 (chunk 2)] liveState)) ! 1 \<noteq>
     sum_list (take 1 [1 / 8000, 1 / 8000])"
proof -
  let ?s1 = "dispatch sampleSetting (Message 0 (chunk 2)) liveState"
  note a = dispatch_chunk [OF liveState_fields(1,2) chunkDuration_chunk_2 chunk_fields(1)
      chunk_args, of 0]
  note b = dispatch_chunk [OF a(1,2) chunkDuration_chunk_2 chunk_fields(1) chunk_args, of 5]
  have "startTimes (effects (dispatch sampleSetting (Message 5 (chunk 2)) ?s1)) = [0, 5]"
    unfolding b(7) a(7) a(3) by (simp add: liveState_fields)
  then show ?thesis
    by (simp add: run_Cons run_Nil liveState_fields chunkDuration_chunk_2 del: dispatch.simps)
qed

lemma chunkDuration_seconds:
  "chunkDuration sampleSetting (chunk 16000) = Some 1"
  "chunkDuration sampleSetting (chunk 8000) = Some (1 / 2)"
  "chunkDuration sampleSetting (chunk 3200) = Some (1 / 5)"
  using chunkDuration_chunk [of 16000 sampleSetting] chunkDuration_chunk [of 8000 sampleSetting]
    chunkDuration_chunk [of 3200 sampleSetting] conforming_sample
  by simp_all

theorem one_transition_when_last_chunk_ends_witness:
  "chunkDuration sampleSetting (chunk 16000) = Some 1 \<and> chunkDuration sampleSetting (chunk 8000) = Some (1 / 2) \<and>
   chunkDuration sampleSetting (chunk 3200) = Some (1 / 5) \<and>
   startTimes (effects (run sampleSetting
      [ToggleLive, Message 0 (chunk 16000), Message (1 / 100) (chunk 8000),
       Message (1 / 50) (chunk 3200)] (initialState sampleSetting))) = [0, 1, 3 / 2] \<and>
   liveStatus (run sampleSetting
      [ToggleLive, Message 0 (chunk 16000), Message (1 / 100) (chunk 8000),
       Message (1 / 50) (chunk 3200), Message (3 / 100) (emptyMessage\<lparr>turnComplete := True\<rparr>)]
      (initialState sampleSetting)) = Speaking \<and>
   liveStatus (run sampleSetting
      [ToggleLive, Message 0 (chunk 16000), Message (1 / 100) (chunk 8000),
       Message (1 / 50) (chunk 3200), Message (3 / 100) (emptyMessage\<lparr>turnComplete := True\<rparr>),
       Ended 0, Ended 1] (initialState sampleSetting)) = Speaking \<and>
   liveStatus (run sampleSetting
      [ToggleLive, Message 0 (chunk 16000), Message (1 / 100) (chunk 8000),
       Message (1 / 50) (chunk 3200), Message (3 / 100) (emptyMessage\<lparr>turnComplete := True\<rparr>),
       Ended 0, Ended 1, Ended 2] (initialState sampleSetting)) = Listening \<and>
   transitions Speaking Listening Listening
     (drop 1 (statusSets (effects (run sampleSetting
      [ToggleLive, Message 0 (chunk 16000), Message (1 / 100) (chunk 8000),
       Message (1 / 50) (chunk 3200), Message (3 / 100) (emptyMessage\<lparr>turnComplete := True\<rparr>),
       Ended 0, Ended 1, Ended 2] (initialState sampleSetting))))) = 1"
proof -
  let ?tc = "emptyMessage\<lparr>turnComplete := True\<rparr>"
  have h1: "\<not> isLive (initialState sampleSetting)"
    and h2: "audioSourcesRef (initialState sampleSetting) = []"
    by (simp_all add: initialState_def)
  have h6: "\<not> interrupted (chunk 16000) \<and> \<not> interrupted (chunk 8000) \<and> \<not> interrupted (chunk 3200)"
    and h7: "\<not> turnComplete (chunk 16000) \<and> \<not> turnComplete (chunk 8000) \<and>
      \<not> turnComplete (chunk 3200)"
    by (simp_all add: chunk_fields)
  have h8: "turnComplete ?tc \<and> \<not> interrupted ?tc \<and> audioData ?tc = None"
    by (simp add: emptyMessage_def)
  have i: "nextStartTimeRef (initialState sampleSetting) = 0"
    "sourcesCreated (initialState sampleSetting) = 0"
    by (simp_all add: initialState_def)
  have h9: "(1 / 100 :: real) \<le> max (nextStartTimeRef (initialState sampleSetting)) 0 + 1"
    and h10: "(1 / 50 :: real) \<le> max (nextStartTimeRef (initialState sampleSetting)) 0 + 3 / 2"
    by (simp_all add: i)
  have h11: "callsHaveArgs (chunk 16000) \<and> callsHaveArgs (chunk 8000) \<and>
      callsHaveArgs (chunk 3200) \<and> callsHaveArgs ?tc"
    by (simp add: chunk_args) (simp add: callsHaveArgs_def emptyMessage_def)
  have l: "dispatch sampleSetting ToggleLive (initialState sampleSetting) = liveState"
    by (simp add: liveState_def)
  show ?thesis
    using one_transition_when_last_chunk_ends [OF h1 h2 chunkDuration_seconds h6 h7 h8 h9 h10 h11,
        of "3 / 100"]
    by (simp add: run_Cons run_Nil l i liveState_fields chunkDuration_seconds numeral_2_eq_2
        transitions_simps del: dispatch.simps)
qed

end
